theory Spec2Isabelle
  imports Main
begin

section \<open>Values, errors and results\<close>

text \<open>
  A value of a JSON document, of a data frame cell or of a table column. \<open>Null\<close> is
  Python's \<open>None\<close> and SQL's \<open>NULL\<close>. \<open>NaN\<close> is the float that pandas puts for a
  missing value in a column it has converted to numbers, as it does with a column of a
  file that holds no text at all. A float is carried as the text that Python's \<open>str\<close>
  prints for it; a timestamp as an integer, its epoch milliseconds.
\<close>

datatype val = Null | NaN | IntV int | FloatV string | StrV string

datatype py_error =
    KeyError | IndexError | TypeError | AttributeError | ValueError
  | FileNotFoundError | NotADirectoryError | IntegrityError | DatabaseError

text \<open>The outcome of a Python call: an exception that leaves the function, or a value.\<close>

datatype 'a result = Raise py_error | Return 'a

section \<open>The relational store of \<open>sql_queries.py\<close>\<close>

text \<open>
  One record per \<open>CREATE TABLE\<close>, the columns in the order of the statement. The serial
  \<open>songplay_id\<close> is given by the store and is left out: the \<open>songplays\<close> list is the
  table in insertion order.
\<close>

record song_row =
  s_song_id :: val
  s_title :: val
  s_artist_id :: val
  s_year :: val
  s_duration_str :: val
  s_duration_float :: val

record artist_row =
  a_artist_id :: val
  a_name :: val
  a_location :: val
  a_latitude :: val
  a_longitude :: val

record user_row =
  u_user_id :: val
  u_first_name :: val
  u_last_name :: val
  u_gender :: val
  u_level :: val

record time_row =
  t_start_time :: val
  t_hour :: val
  t_day :: val
  t_week :: val
  t_month :: val
  t_year :: val
  t_weekday :: val

record songplay_row =
  sp_start_time :: val
  sp_user_id :: val
  sp_level :: val
  sp_song_id :: val
  sp_artist_id :: val
  sp_session_id :: val
  sp_location :: val
  sp_user_agent :: val

record db =
  songs :: "song_row list"
  artists :: "artist_row list"
  users :: "user_row list"
  time_tbl :: "time_row list"
  songplays :: "songplay_row list"

text \<open>
  A psycopg2 connection: what the store holds durably, and what the open transaction
  sees. \<open>commit\<close> makes the transaction's view durable, \<open>rollback\<close> drops it.
\<close>

record conn =
  committed :: db
  pending :: db

definition commit :: "conn \<Rightarrow> conn" where
  "commit c = c\<lparr>committed := pending c\<rparr>"

definition rollback :: "conn \<Rightarrow> conn" where
  "rollback c = c\<lparr>pending := committed c\<rparr>"

definition connect :: "db \<Rightarrow> conn" where
  "connect d = \<lparr>committed = d, pending = d\<rparr>"

text \<open>SQL equality in a \<open>WHERE\<close> or \<open>ON\<close> clause: never true of a \<open>NULL\<close>.\<close>

definition sql_eq :: "val \<Rightarrow> val \<Rightarrow> bool" where
  "sql_eq x y = (x \<noteq> Null \<and> y \<noteq> Null \<and> x = y)"

text \<open>The four parameterised \<open>INSERT\<close> statements, named as the module names them.\<close>

datatype query = song_table_insert | artist_table_insert | user_table_insert | time_table_insert

text \<open>The number of \<open>%s\<close> placeholders in the statement's text.\<close>

fun placeholders :: "query \<Rightarrow> nat" where
  "placeholders song_table_insert = 6"
| "placeholders artist_table_insert = 5"
| "placeholders user_table_insert = 5"
| "placeholders time_table_insert = 7"

text \<open>
  What the store does with a statement whose placeholders are all filled. A \<open>NULL\<close> in a
  primary key or in a \<open>NOT NULL\<close> column is refused. \<open>ON CONFLICT DO NOTHING\<close> keeps the
  table as it is when the key is present; \<open>ON CONFLICT (user_id) DO UPDATE SET level =
  EXCLUDED.level\<close> rewrites the level of the row with that key. Column types are not
  modelled: a value is stored as it is given, and two keys are the same when the values
  are equal.
\<close>

fun run_insert :: "query \<Rightarrow> val list \<Rightarrow> db \<Rightarrow> py_error + db" where
  "run_insert song_table_insert a d =
     (if a ! 0 = Null then Inl IntegrityError
      else if a ! 0 \<in> set (map s_song_id (songs d)) then Inr d
      else Inr (d\<lparr>songs := songs d @
             [\<lparr>s_song_id = a ! 0, s_title = a ! 1, s_artist_id = a ! 2, s_year = a ! 3,
               s_duration_str = a ! 4, s_duration_float = a ! 5\<rparr>]\<rparr>))"
| "run_insert artist_table_insert a d =
     (if a ! 0 = Null then Inl IntegrityError
      else if a ! 0 \<in> set (map a_artist_id (artists d)) then Inr d
      else Inr (d\<lparr>artists := artists d @
             [\<lparr>a_artist_id = a ! 0, a_name = a ! 1, a_location = a ! 2, a_latitude = a ! 3,
               a_longitude = a ! 4\<rparr>]\<rparr>))"
| "run_insert user_table_insert a d =
     (if a ! 0 = Null then Inl IntegrityError
      else if a ! 0 \<in> set (map u_user_id (users d))
      then Inr (d\<lparr>users :=
             map (\<lambda>r. if u_user_id r = a ! 0 then r\<lparr>u_level := a ! 4\<rparr> else r) (users d)\<rparr>)
      else Inr (d\<lparr>users := users d @
             [\<lparr>u_user_id = a ! 0, u_first_name = a ! 1, u_last_name = a ! 2, u_gender = a ! 3,
               u_level = a ! 4\<rparr>]\<rparr>))"
| "run_insert time_table_insert a d =
     (if Null \<in> set a then Inl IntegrityError
      else if a ! 0 \<in> set (map t_start_time (time_tbl d)) then Inr d
      else Inr (d\<lparr>time_tbl := time_tbl d @
             [\<lparr>t_start_time = a ! 0, t_hour = a ! 1, t_day = a ! 2, t_week = a ! 3,
               t_month = a ! 4, t_year = a ! 5, t_weekday = a ! 6\<rparr>]\<rparr>))"

text \<open>
  \<open>cur.execute(query, args)\<close>. psycopg2 fills the placeholders before it sends anything:
  fewer arguments than placeholders is an \<open>IndexError\<close>, more is a \<open>TypeError\<close>. A
  statement that fails leaves the transaction's view as it was.
\<close>

definition execute :: "query \<Rightarrow> val list \<Rightarrow> conn \<Rightarrow> unit result \<times> conn" where
  "execute q args c =
     (if length args < placeholders q then (Raise IndexError, c)
      else if placeholders q < length args then (Raise TypeError, c)
      else case run_insert q args (pending c) of
             Inl e \<Rightarrow> (Raise e, c)
           | Inr d \<Rightarrow> (Return (), c\<lparr>pending := d\<rparr>))"

section \<open>File discovery: \<open>get_files\<close>\<close>

text \<open>
  A directory holds named entries in the order the system lists them. The file system
  is seen through \<open>fs\<close>, which resolves the path given to \<open>os.walk\<close>: \<open>None\<close> when
  nothing is there.
\<close>

datatype fsnode = File | Dir "(string \<times> fsnode) list"

type_synonym filesystem = "string \<Rightarrow> fsnode option"

text \<open>\<open>os.path.join\<close> of two components (POSIX).\<close>

definition path_join :: "string \<Rightarrow> string \<Rightarrow> string" where
  "path_join a b =
     (if b \<noteq> [] \<and> hd b = CHR ''/'' then b
      else if a = [] \<or> last a = CHR ''/'' then a @ b
      else a @ ''/'' @ b)"

text \<open>\<open>str.endswith\<close>.\<close>

definition endswith :: "string \<Rightarrow> string \<Rightarrow> bool" where
  "endswith s suf = (length suf \<le> length s \<and> drop (length s - length suf) s = suf)"

text \<open>
  \<open>os.scandir\<close>, and \<open>os.walk\<close> top-down with its defaults. \<open>os.walk\<close> is called without
  \<open>onerror\<close>, so a directory that cannot be listed is passed over in silence. Each step
  of the walk is kept as the directory's path and its listing; the source uses only the
  path, neither \<open>dirs\<close> nor \<open>filez\<close>.
\<close>

definition scandir :: "filesystem \<Rightarrow> string \<Rightarrow> py_error + (string \<times> fsnode) list" where
  "scandir fs p =
     (case fs p of
        None \<Rightarrow> Inl FileNotFoundError
      | Some File \<Rightarrow> Inl NotADirectoryError
      | Some (Dir es) \<Rightarrow> Inr es)"

fun walk :: "string \<Rightarrow> fsnode \<Rightarrow> (string \<times> (string \<times> fsnode) list) list"
  and walk_entries :: "string \<Rightarrow> (string \<times> fsnode) list \<Rightarrow> (string \<times> (string \<times> fsnode) list) list"
where
  "walk dirpath File = []"
| "walk dirpath (Dir es) = (dirpath, es) # walk_entries dirpath es"
| "walk_entries dirpath [] = []"
| "walk_entries dirpath (e # es) = walk (path_join dirpath (fst e)) (snd e) @ walk_entries dirpath es"

definition os_walk :: "filesystem \<Rightarrow> string \<Rightarrow> (string \<times> (string \<times> fsnode) list) list" where
  "os_walk fs dirpath =
     (case scandir fs dirpath of
        Inl e \<Rightarrow> []
      | Inr es \<Rightarrow> walk dirpath (Dir es))"

text \<open>
  \<open>get_files\<close>. \<open>glob\<close> is \<open>glob.glob\<close> of the standard library on the same file
  system: the paths that a pattern matches. The pattern it is given is the walked
  directory's path joined with the mask, exactly as the source builds it, so the
  directory's path is part of the pattern. \<open>abspath\<close> is \<open>os.path.abspath\<close>, which
  depends on the working directory. Nothing in the body raises.
\<close>

definition get_files ::
  "filesystem \<Rightarrow> (string \<Rightarrow> string list) \<Rightarrow> (string \<Rightarrow> string) \<Rightarrow> string \<Rightarrow> string \<Rightarrow> string
     \<Rightarrow> string list result" where
  "get_files fs glob abspath filepath filemask exclude =
     Return (concat (map
       (\<lambda>(root, es).
          map abspath
            (if exclude \<noteq> [] \<and> endswith root exclude then []
             else glob (path_join root filemask)))
       (os_walk fs filepath)))"

section \<open>Bulk load: \<open>copy_from_stringio\<close>\<close>

definition songplay_cols :: "string list" where
  "songplay_cols = [''start_time'', ''user_id'', ''level'', ''song_id'', ''artist_id'',
                    ''session_id'', ''location'', ''user_agent'']"

text \<open>
  \<open>copy_from_stringio\<close>. \<open>to_csv\<close> is \<open>df.to_csv\<close> with the arguments of the source,
  which writes the frame into the buffer, and \<open>cursor_copy_from\<close> is the cursor's
  \<open>copy_from\<close>, the store's answer to the bulk copy of a buffer: the transaction after
  the copy, or the error. Both belong to libraries and to the store, and the function
  is defined for every way they can behave. The value returned is \<open>1\<close> from the
  \<open>except\<close> branch and \<open>None\<close> at the end of the body.
\<close>

definition copy_from_stringio ::
  "(songplay_row list \<Rightarrow> 'buf) \<Rightarrow> ('buf \<Rightarrow> string \<Rightarrow> string list option \<Rightarrow> conn \<Rightarrow> py_error + conn)
     \<Rightarrow> conn \<Rightarrow> songplay_row list \<Rightarrow> string \<Rightarrow> string list option \<Rightarrow> int option \<times> conn" where
  "copy_from_stringio to_csv cursor_copy_from c df table which_columns =
     (let buffer = to_csv df in
      case cursor_copy_from buffer table which_columns c of
        Inr c' \<Rightarrow> (None, commit c')
      | Inl error \<Rightarrow> (Some 1, rollback c))"

section \<open>Catalog files: \<open>process_song_file\<close>\<close>

text \<open>
  A catalog document read with \<open>typ = 'series'\<close>: a mapping from field names to
  values. Indexing a missing field is a \<open>KeyError\<close>; a tuple is built left to right.
\<close>

type_synonym series = "string \<rightharpoonup> val"

fun getitems :: "series \<Rightarrow> string list \<Rightarrow> val list result" where
  "getitems df [] = Return []"
| "getitems df (k # ks) =
     (case df k of
        None \<Rightarrow> Raise KeyError
      | Some v \<Rightarrow> (case getitems df ks of Raise e \<Rightarrow> Raise e | Return vs \<Rightarrow> Return (v # vs)))"

text \<open>
  \<open>read_json\<close> is \<open>pd.read_json(filepath, typ = 'series')\<close>: the parsed document, or
  the error of a file that cannot be read or parsed. \<open>song_data\<close> is the tuple of
  five values of the source; \<open>song_table_insert\<close> has six placeholders.
\<close>

definition process_song_file ::
  "(string \<Rightarrow> py_error + series) \<Rightarrow> string \<Rightarrow> conn \<Rightarrow> unit result \<times> conn" where
  "process_song_file read_json filepath c =
     (case read_json filepath of
        Inl e \<Rightarrow> (Raise e, c)
      | Inr df \<Rightarrow>
         (case getitems df [''song_id'', ''title'', ''artist_id'', ''year'', ''duration''] of
            Raise e \<Rightarrow> (Raise e, c)
          | Return song_data \<Rightarrow>
             (case execute song_table_insert song_data c of
                (Raise e, c1) \<Rightarrow> (Raise e, c1)
              | (Return u, c1) \<Rightarrow>
                 (case getitems df [''artist_id'', ''artist_name'', ''artist_location'',
                                    ''artist_latitude'', ''artist_longitude''] of
                    Raise e \<Rightarrow> (Raise e, c1)
                  | Return artist_data \<Rightarrow> execute artist_table_insert artist_data c1))))"

section \<open>Event files: \<open>process_log_file\<close>\<close>

text \<open>
  One line of an event file, as a row of the data frame that \<open>pd.read_json(filepath,
  lines = True)\<close> builds. The frame of a file with at least one line has these columns;
  a cell is \<open>Null\<close> or \<open>NaN\<close> where the line has no value.
\<close>

record event =
  ts :: int
  page :: val
  userId :: val
  firstName :: val
  lastName :: val
  gender :: val
  level :: val
  song :: val
  artist :: val
  song_length :: val
  sessionId :: val
  location :: val
  userAgent :: val

text \<open>Python's \<open>str\<close> of a cell.\<close>

fun str_nat :: "nat \<Rightarrow> string" where
  "str_nat n =
     (if n < 10 then [''0123456789'' ! n]
      else str_nat (n div 10) @ [''0123456789'' ! (n mod 10)])"

declare str_nat.simps [simp del]

fun py_str :: "val \<Rightarrow> string" where
  "py_str Null = ''None''"
| "py_str NaN = ''nan''"
| "py_str (IntV i) = (if i < 0 then ''-'' @ str_nat (nat (- i)) else str_nat (nat i))"
| "py_str (FloatV s) = s"
| "py_str (StrV s) = s"

text \<open>\<open>x.strip('"')\<close>: only a string has the method.\<close>

fun py_strip_quotes :: "val \<Rightarrow> val result" where
  "py_strip_quotes (StrV s) =
     Return (StrV (rev (dropWhile (\<lambda>ch. ch = CHR 0x22) (rev (dropWhile (\<lambda>ch. ch = CHR 0x22) s)))))"
| "py_strip_quotes v = Raise AttributeError"

text \<open>
  The \<open>song_select\<close> query with its three placeholders: the \<open>(song_id, artist_id)\<close> of
  every pair of a song and an artist joined on \<open>artist_id\<close> whose title, artist name and
  \<open>duration_str\<close> equal the arguments. The three columns are \<open>varchar\<close>: \<open>None\<close> is sent
  as \<open>NULL\<close> and equals nothing, and an argument that is a number or NaN is an error
  (the store has no equality between \<open>varchar\<close> and a number). \<open>fetchone\<close> takes the
  first row of a result.
\<close>

fun text_or_none :: "val \<Rightarrow> bool" where
  "text_or_none Null = True"
| "text_or_none (StrV s) = True"
| "text_or_none v = False"

definition song_select :: "val list \<Rightarrow> db \<Rightarrow> (val \<times> val) list result" where
  "song_select args d =
     (if length args < 3 then Raise IndexError
      else if 3 < length args then Raise TypeError
      else if \<not> list_all text_or_none args then Raise DatabaseError
      else Return
        (map (\<lambda>(s, a). (s_song_id s, s_artist_id s))
          (filter (\<lambda>(s, a). sql_eq (s_artist_id s) (a_artist_id a)
                     \<and> sql_eq (s_title s) (args ! 0) \<and> sql_eq (a_name a) (args ! 1)
                     \<and> sql_eq (s_duration_str s) (args ! 2))
             (List.product (songs d) (artists d)))))"

definition fetchone :: "'a list \<Rightarrow> 'a option" where
  "fetchone rows = (case rows of [] \<Rightarrow> None | r # rest \<Rightarrow> Some r)"

text \<open>\<open>for ... : cur.execute(query, row)\<close>: the first statement that fails ends the loop.\<close>

fun execute_each :: "query \<Rightarrow> val list list \<Rightarrow> conn \<Rightarrow> unit result \<times> conn" where
  "execute_each q [] c = (Return (), c)"
| "execute_each q (args # rest) c =
     (case execute q args c of
        (Raise e, c') \<Rightarrow> (Raise e, c')
      | (Return u, c') \<Rightarrow> execute_each q rest c')"

text \<open>
  The rows of \<open>time_df\<close> and of \<open>user_df\<close> (without the timestamp, as \<open>row[1:]\<close>).
  \<open>cal\<close> stands for the \<open>dt\<close> accessors of pandas: hour, day, week, month, year and
  weekday of a timestamp.
\<close>

type_synonym calendar = "int \<Rightarrow> int \<times> int \<times> int \<times> int \<times> int \<times> int"

definition time_data :: "calendar \<Rightarrow> event \<Rightarrow> val list" where
  "time_data cal row =
     (case cal (ts row) of
        (h, d, w, m, y, wd) \<Rightarrow> [IntV (ts row), IntV h, IntV d, IntV w, IntV m, IntV y, IntV wd])"

definition user_data :: "event \<Rightarrow> val list" where
  "user_data row = [userId row, firstName row, lastName row, gender row, level row]"

text \<open>
  \<open>sort_values(by = ["ts"], ascending = False)\<close>. Rows with equal timestamps keep
  their order here; pandas does not promise an order for them.
\<close>

definition sort_values_ts_desc :: "event list \<Rightarrow> event list" where
  "sort_values_ts_desc df = sort_key (\<lambda>row. - ts row) df"

text \<open>
  The body of the loop that builds \<open>songplay_df\<close>: the lookup, \<open>fetchone\<close>, and the
  row for one event. Then the loop itself, one row appended per event, in frame order.
\<close>

definition songplay_row_of :: "db \<Rightarrow> event \<Rightarrow> songplay_row result" where
  "songplay_row_of d row =
     (case song_select [song row, artist row, StrV (py_str (song_length row))] d of
        Raise e \<Rightarrow> Raise e
      | Return rows \<Rightarrow>
         (case (case fetchone rows of Some results \<Rightarrow> results | None \<Rightarrow> (Null, Null)) of
            (songid, artistid) \<Rightarrow>
              (case py_strip_quotes (userAgent row) of
                 Raise e \<Rightarrow> Raise e
               | Return ua \<Rightarrow>
                   Return \<lparr>sp_start_time = IntV (ts row), sp_user_id = userId row,
                       sp_level = level row, sp_song_id = songid, sp_artist_id = artistid,
                       sp_session_id = sessionId row, sp_location = location row,
                       sp_user_agent = ua\<rparr>)))"

fun songplay_loop :: "db \<Rightarrow> event list \<Rightarrow> songplay_row list \<Rightarrow> songplay_row list result" where
  "songplay_loop d [] songplay_df = Return songplay_df"
| "songplay_loop d (row # rest) songplay_df =
     (case songplay_row_of d row of
        Raise e \<Rightarrow> Raise e
      | Return songplay_row \<Rightarrow> songplay_loop d rest (songplay_df @ [songplay_row]))"

text \<open>
  \<open>process_log_file\<close>. \<open>read_json\<close> is \<open>pd.read_json(filepath, lines = True)\<close>;
  \<open>to_csv\<close> and \<open>cursor_copy_from\<close> are those of \<open>copy_from_stringio\<close>. The frame of a
  file without a line has no column, and \<open>df.page\<close> is an \<open>AttributeError\<close> there. The
  value that \<open>copy_from_stringio\<close> returns is dropped, as in the source.
\<close>

definition process_log_file ::
  "calendar \<Rightarrow> (string \<Rightarrow> py_error + event list) \<Rightarrow> (songplay_row list \<Rightarrow> 'buf)
     \<Rightarrow> ('buf \<Rightarrow> string \<Rightarrow> string list option \<Rightarrow> conn \<Rightarrow> py_error + conn)
     \<Rightarrow> string \<Rightarrow> conn \<Rightarrow> unit result \<times> conn" where
  "process_log_file cal read_json to_csv cursor_copy_from filepath c =
     (case read_json filepath of
        Inl e \<Rightarrow> (Raise e, c)
      | Inr df0 \<Rightarrow>
         if df0 = [] then (Raise AttributeError, c)
         else
           let df = filter (\<lambda>row. page row = StrV ''NextSong'') df0 in
           (case execute_each time_table_insert (map (time_data cal) df) c of
              (Raise e, c1) \<Rightarrow> (Raise e, c1)
            | (Return u, c1) \<Rightarrow>
               let user_df = sort_values_ts_desc df in
               (case execute_each user_table_insert (map user_data user_df) c1 of
                  (Raise e, c2) \<Rightarrow> (Raise e, c2)
                | (Return u, c2) \<Rightarrow>
                   (case songplay_loop (pending c2) df [] of
                      Raise e \<Rightarrow> (Raise e, c2)
                    | Return songplay_df \<Rightarrow>
                       (Return (),
                        snd (copy_from_stringio to_csv cursor_copy_from c2 songplay_df
                               ''songplays'' (Some songplay_cols)))))))"

section \<open>The driver: \<open>process_data\<close>\<close>

text \<open>
  The loop over the files found: \<open>func\<close>, then \<open>conn.commit()\<close>. There is no
  \<open>try\<close> around \<open>func\<close>: an exception leaves the loop and \<open>process_data\<close>.
\<close>

fun process_files ::
  "(string \<Rightarrow> conn \<Rightarrow> unit result \<times> conn) \<Rightarrow> string list \<Rightarrow> conn \<Rightarrow> unit result \<times> conn" where
  "process_files func [] c = (Return (), c)"
| "process_files func (datafile # rest) c =
     (case func datafile c of
        (Raise e, c') \<Rightarrow> (Raise e, c')
      | (Return u, c') \<Rightarrow> process_files func rest (commit c'))"

definition process_data ::
  "filesystem \<Rightarrow> (string \<Rightarrow> string list) \<Rightarrow> (string \<Rightarrow> string)
     \<Rightarrow> (string \<Rightarrow> conn \<Rightarrow> unit result \<times> conn) \<Rightarrow> string \<Rightarrow> conn \<Rightarrow> unit result \<times> conn" where
  "process_data fs glob abspath func filepath c =
     (case get_files fs glob abspath filepath ''*.json'' ''.ipynb_checkpoints'' of
        Raise e \<Rightarrow> (Raise e, c)
      | Return all_files \<Rightarrow> process_files func all_files c)"

section \<open>Keys\<close>

text \<open>The values in the primary-key column of the table that a statement writes.\<close>

definition keys_of :: "query \<Rightarrow> db \<Rightarrow> val set" where
  "keys_of q d =
     (case q of
        song_table_insert \<Rightarrow> set (map s_song_id (songs d))
      | artist_table_insert \<Rightarrow> set (map a_artist_id (artists d))
      | user_table_insert \<Rightarrow> set (map u_user_id (users d))
      | time_table_insert \<Rightarrow> set (map t_start_time (time_tbl d)))"

section \<open>Sample data\<close>

text \<open>
  A small store, a file tree, a catalog document and event files, for the concrete
  instances of the theorems below.
\<close>

definition empty_db :: db where
  "empty_db = \<lparr>songs = [], artists = [], users = [], time_tbl = [], songplays = []\<rparr>"

definition user7 :: user_row where
  "user7 = \<lparr>u_user_id = StrV ''7'', u_first_name = StrV ''Ann'', u_last_name = StrV ''Lee'',
             u_gender = StrV ''F'', u_level = StrV ''free''\<rparr>"

definition user8 :: user_row where
  "user8 = \<lparr>u_user_id = StrV ''8'', u_first_name = StrV ''Cy'', u_last_name = StrV ''Orr'',
             u_gender = StrV ''M'', u_level = StrV ''free''\<rparr>"

definition songplay1 :: songplay_row where
  "songplay1 = \<lparr>sp_start_time = IntV 1000, sp_user_id = StrV ''7'', sp_level = StrV ''free'',
     sp_song_id = Null, sp_artist_id = Null, sp_session_id = IntV 1, sp_location = StrV ''X'',
     sp_user_agent = StrV ''UA''\<rparr>"

definition sample_tree :: fsnode where
  "sample_tree =
     Dir [(''a.json'', File),
          (''.ipynb_checkpoints'',
             Dir [(''a-checkpoint.json'', File), (''deep'', Dir [(''b.json'', File)])]),
          (''A'', Dir [(''c.json'', File), (''notes.txt'', File)])]"

definition sample_fs :: filesystem where
  "sample_fs p = (if p = ''data'' then Some sample_tree else None)"

definition sample_abspath :: "string \<Rightarrow> string" where
  "sample_abspath p = ''/home/'' @ p"

text \<open>What \<open>glob.glob\<close> returns on that tree for the patterns that the samples ask for.\<close>

definition sample_glob :: "string \<Rightarrow> string list" where
  "sample_glob pattern =
     (if pattern = ''data/*.json'' then [''data/a.json'']
      else if pattern = ''data/.ipynb_checkpoints/*.json''
        then [''data/.ipynb_checkpoints/a-checkpoint.json'']
      else if pattern = ''data/.ipynb_checkpoints/deep/*.json''
        then [''data/.ipynb_checkpoints/deep/b.json'']
      else if pattern = ''data/A/*.json'' then [''data/A/c.json'']
      else [])"

text \<open>
  A tree with a directory \<open>skip\<close> and a directory whose name is the pattern \<open>s[k]ip\<close>,
  and what \<open>glob.glob\<close> returns on it: the bracket is read as a character class, so
  the pattern of the second directory matches the files of the first.
\<close>

definition bracket_tree :: fsnode where
  "bracket_tree =
     Dir [(''skip'', Dir [(''secret.json'', File)]),
          (''s[k]ip'', Dir [(''own.json'', File)])]"

definition bracket_fs :: filesystem where
  "bracket_fs p = (if p = ''d'' then Some bracket_tree else None)"

definition bracket_glob :: "string \<Rightarrow> string list" where
  "bracket_glob pattern =
     (if pattern = ''d/skip/*.json'' \<or> pattern = ''d/s[k]ip/*.json''
      then [''d/skip/secret.json'']
      else [])"

text \<open>
  Two answers of a store to the bulk copy, with the frame itself standing for the
  buffer: a store that takes the rows and appends them to \<open>songplays\<close>, and a store that
  refuses the copy.
\<close>

definition frame_buffer :: "songplay_row list \<Rightarrow> songplay_row list" where
  "frame_buffer df = df"

definition accepting_copy ::
  "songplay_row list \<Rightarrow> string \<Rightarrow> string list option \<Rightarrow> conn \<Rightarrow> py_error + conn" where
  "accepting_copy buffer table columns c =
     Inr (c\<lparr>pending := (pending c)\<lparr>songplays := songplays (pending c) @ buffer\<rparr>\<rparr>)"

definition refusing_copy ::
  "songplay_row list \<Rightarrow> string \<Rightarrow> string list option \<Rightarrow> conn \<Rightarrow> py_error + conn" where
  "refusing_copy buffer table columns c = Inl DatabaseError"

definition sample_cal :: calendar where
  "sample_cal t = ((t div 3600000) mod 24, 1, 1, 1, 1970, 3)"

definition log_event :: "int \<Rightarrow> val \<Rightarrow> string \<Rightarrow> val \<Rightarrow> event" where
  "log_event t p u l =
     \<lparr>ts = t, page = p, userId = StrV u, firstName = StrV ''Ann'', lastName = StrV ''Lee'',
      gender = StrV ''F'', level = l, song = StrV ''Intro'', artist = StrV ''Elena'',
      song_length = FloatV ''269.58322'', sessionId = IntV 139, location = StrV ''Lund'',
      userAgent = StrV [CHR 0x22, CHR ''M'', CHR ''o'', CHR ''z'', CHR 0x22]\<rparr>"

definition song1 :: song_row where
  "song1 = \<lparr>s_song_id = StrV ''SOUPIRU'', s_title = StrV ''Intro'', s_artist_id = StrV ''ARJIE2Y'',
             s_year = IntV 2003, s_duration_str = StrV ''269.58322'',
             s_duration_float = FloatV ''269.58322''\<rparr>"

definition artist1 :: artist_row where
  "artist1 = \<lparr>a_artist_id = StrV ''ARJIE2Y'', a_name = StrV ''Elena'', a_location = StrV ''Dubai'',
               a_latitude = Null, a_longitude = Null\<rparr>"

definition song_doc :: series where
  "song_doc = [''song_id'' \<mapsto> StrV ''SOUPIRU'', ''title'' \<mapsto> StrV ''Intro'',
               ''artist_id'' \<mapsto> StrV ''ARJIE2Y'', ''year'' \<mapsto> IntV 2003,
               ''duration'' \<mapsto> FloatV ''269.58322'', ''artist_name'' \<mapsto> StrV ''Elena'',
               ''artist_location'' \<mapsto> StrV ''Dubai'', ''artist_latitude'' \<mapsto> Null,
               ''artist_longitude'' \<mapsto> Null]"

definition catalog_db :: db where
  "catalog_db = empty_db\<lparr>songs := [song1], artists := [artist1]\<rparr>"

definition sample_log :: "event list" where
  "sample_log =
     [log_event 1000 (StrV ''NextSong'') ''7'' (StrV ''free''),
      log_event 1500 (StrV ''Home'') ''8'' (StrV ''free''),
      (log_event 2000 (StrV ''NextSong'') ''7'' (StrV ''paid''))\<lparr>song_length := FloatV ''100.0''\<rparr>]"

definition catalog_reader :: "string \<Rightarrow> py_error + series" where
  "catalog_reader p =
     (if p = ''/home/data/a.json'' then Inr (song_doc(''title'' := None)) else Inr song_doc)"

definition log_reader :: "string \<Rightarrow> py_error + event list" where
  "log_reader p =
     (if p = ''/home/data/a.json''
      then Inr [(log_event 500 (StrV ''NextSong'') ''9'' (StrV ''free''))\<lparr>userAgent := Null\<rparr>]
      else Inr sample_log)"

definition log_reader2 :: "string \<Rightarrow> py_error + event list" where
  "log_reader2 p =
     (if p = ''/home/data/.ipynb_checkpoints/deep/b.json''
      then Inr [(log_event 500 (StrV ''NextSong'') ''9'' (StrV ''free''))\<lparr>userAgent := Null\<rparr>]
      else Inr sample_log)"

section \<open>The user upsert\<close>

lemma execute_user_conflict:
  assumes "uid \<noteq> Null" and "uid \<in> set (map u_user_id (users (pending c)))"
  shows "execute user_table_insert [uid, fn, ln, g, lvl] c =
           (Return (), c\<lparr>pending := (pending c)\<lparr>users :=
              map (\<lambda>r. if u_user_id r = uid then r\<lparr>u_level := lvl\<rparr> else r)
                (users (pending c))\<rparr>\<rparr>)"
  using assms by (simp add: execute_def)

text \<open>
  C10. When \<open>user_table_insert\<close> meets a row with the same \<open>user_id\<close>, only the level of
  that row changes: the statement succeeds, the table keeps its rows in place with their
  \<open>user_id\<close>, \<open>first_name\<close>, \<open>last_name\<close> and \<open>gender\<close> as they were, whatever the
  conflicting row carries for them, the row with that key gets the new level, every other
  row keeps its own, and no other table and nothing durable changes.
\<close>

theorem user_upsert_overwrites_level_only:
  assumes "uid \<in> set (map u_user_id (users (pending c)))" and "uid \<noteq> Null"
    and "execute user_table_insert [uid, fn, ln, g, lvl] c = (r, c')"
  shows "r = Return ()
    \<and> map u_user_id (users (pending c')) = map u_user_id (users (pending c))
    \<and> map u_first_name (users (pending c')) = map u_first_name (users (pending c))
    \<and> map u_last_name (users (pending c')) = map u_last_name (users (pending c))
    \<and> map u_gender (users (pending c')) = map u_gender (users (pending c))
    \<and> map u_level (users (pending c')) =
        map (\<lambda>x. if u_user_id x = uid then lvl else u_level x) (users (pending c))
    \<and> songs (pending c') = songs (pending c)
    \<and> artists (pending c') = artists (pending c)
    \<and> time_tbl (pending c') = time_tbl (pending c)
    \<and> songplays (pending c') = songplays (pending c)
    \<and> committed c' = committed c"
proof -
  have "(r, c') = (Return (), c\<lparr>pending := (pending c)\<lparr>users :=
              map (\<lambda>x. if u_user_id x = uid then x\<lparr>u_level := lvl\<rparr> else x)
                (users (pending c))\<rparr>\<rparr>)"
    using execute_user_conflict[OF assms(2) assms(1)] assms(3) by simp
  then have r: "r = Return ()"
    and c': "c' = c\<lparr>pending := (pending c)\<lparr>users :=
              map (\<lambda>x. if u_user_id x = uid then x\<lparr>u_level := lvl\<rparr> else x)
                (users (pending c))\<rparr>\<rparr>"
    by simp_all
  show ?thesis
    unfolding c' using r by (simp add: comp_def if_distrib cong: if_cong)
qed

theorem user_upsert_overwrites_level_only_witness:
  "execute user_table_insert [StrV ''7'', StrV ''Bob'', StrV ''Ray'', StrV ''M'', StrV ''paid'']
       (connect (empty_db\<lparr>users := [user7, user8]\<rparr>))
     = (Return (), \<lparr>committed = empty_db\<lparr>users := [user7, user8]\<rparr>,
                    pending = empty_db\<lparr>users := [user7\<lparr>u_level := StrV ''paid''\<rparr>, user8]\<rparr>\<rparr>)
   \<and> map u_first_name (users (pending (snd (execute user_table_insert
         [StrV ''7'', StrV ''Bob'', StrV ''Ray'', StrV ''M'', StrV ''paid'']
         (connect (empty_db\<lparr>users := [user7, user8]\<rparr>))))))
     = [StrV ''Ann'', StrV ''Cy'']
   \<and> map u_level (users (pending (snd (execute user_table_insert
         [StrV ''7'', StrV ''Bob'', StrV ''Ray'', StrV ''M'', StrV ''paid'']
         (connect (empty_db\<lparr>users := [user7, user8]\<rparr>))))))
     = [StrV ''paid'', StrV ''free'']"
  using user_upsert_overwrites_level_only
    [of "StrV ''7''" "connect (empty_db\<lparr>users := [user7, user8]\<rparr>)"
        "StrV ''Bob''" "StrV ''Ray''" "StrV ''M''" "StrV ''paid''"
        "fst (execute user_table_insert
           [StrV ''7'', StrV ''Bob'', StrV ''Ray'', StrV ''M'', StrV ''paid'']
           (connect (empty_db\<lparr>users := [user7, user8]\<rparr>)))"
        "snd (execute user_table_insert
           [StrV ''7'', StrV ''Bob'', StrV ''Ray'', StrV ''M'', StrV ''paid'']
           (connect (empty_db\<lparr>users := [user7, user8]\<rparr>)))"]
  by (simp add: execute_def connect_def empty_db_def user7_def user8_def)

section \<open>The bulk loader and its transaction\<close>

text \<open>
  C3, as the claim states it, fails: with one row, an empty store and a store that
  accepts the copy, \<open>copy_from_stringio\<close> returns \<open>None\<close> and the row is durable
  afterwards. The function calls \<open>conn.commit()\<close> itself, right after the copy.
\<close>

theorem copy_from_stringio_commits_counterexample:
  "copy_from_stringio frame_buffer accepting_copy (connect empty_db) [songplay1] ''songplays''
       (Some songplay_cols)
     = (None, connect (empty_db\<lparr>songplays := [songplay1]\<rparr>))
   \<and> committed (snd (copy_from_stringio frame_buffer accepting_copy (connect empty_db)
        [songplay1] ''songplays'' (Some songplay_cols))) \<noteq> committed (connect empty_db)"
  by (simp add: copy_from_stringio_def accepting_copy_def frame_buffer_def connect_def
      empty_db_def songplay1_def commit_def Let_def)

text \<open>
  C3, amended. Whatever the store answers to the bulk copy: when the copy fails,
  \<open>copy_from_stringio\<close> returns \<open>1\<close>, the transaction's view is back at the durable
  state and the durable state is untouched, so nothing of the batch (and nothing else
  the transaction had pending) is kept; when the copy succeeds, it returns \<open>None\<close>
  and has committed: the durable state is the transaction's view after the copy.
\<close>

theorem copy_from_stringio_rollback_or_commit:
  "(case cursor_copy_from (to_csv df) table which_columns c of
      Inl error \<Rightarrow>
        fst (copy_from_stringio to_csv cursor_copy_from c df table which_columns) = Some 1
        \<and> pending (snd (copy_from_stringio to_csv cursor_copy_from c df table which_columns))
            = committed c
        \<and> committed (snd (copy_from_stringio to_csv cursor_copy_from c df table which_columns))
            = committed c
    | Inr c' \<Rightarrow>
        fst (copy_from_stringio to_csv cursor_copy_from c df table which_columns) = None
        \<and> committed (snd (copy_from_stringio to_csv cursor_copy_from c df table which_columns))
            = pending c'
        \<and> pending (snd (copy_from_stringio to_csv cursor_copy_from c df table which_columns))
            = pending c')"
  by (simp add: copy_from_stringio_def commit_def rollback_def split: sum.split)

theorem copy_from_stringio_rollback_or_commit_witness:
  "fst (copy_from_stringio frame_buffer refusing_copy
          \<lparr>committed = empty_db, pending = empty_db\<lparr>users := [user7]\<rparr>\<rparr> [songplay1]
          ''songplays'' (Some songplay_cols)) = Some 1
   \<and> pending (snd (copy_from_stringio frame_buffer refusing_copy
          \<lparr>committed = empty_db, pending = empty_db\<lparr>users := [user7]\<rparr>\<rparr> [songplay1]
          ''songplays'' (Some songplay_cols))) = empty_db
   \<and> committed (snd (copy_from_stringio frame_buffer refusing_copy
          \<lparr>committed = empty_db, pending = empty_db\<lparr>users := [user7]\<rparr>\<rparr> [songplay1]
          ''songplays'' (Some songplay_cols))) = empty_db"
  using copy_from_stringio_rollback_or_commit
    [where to_csv = frame_buffer and cursor_copy_from = refusing_copy and df = "[songplay1]"
       and table = "''songplays''" and which_columns = "Some songplay_cols"
       and c = "\<lparr>committed = empty_db, pending = empty_db\<lparr>users := [user7]\<rparr>\<rparr>"]
  by (simp add: refusing_copy_def)

section \<open>File discovery\<close>

lemma walk_entries_child:
  "(n, Dir es') \<in> set ents \<Longrightarrow> (path_join dirpath n, es') \<in> set (walk_entries dirpath ents)"
  by (induction ents) auto

lemma walk_descends:
  "(root, es) \<in> set (walk dirpath node) \<Longrightarrow> (n, Dir es') \<in> set es \<Longrightarrow>
      (path_join root n, es') \<in> set (walk dirpath node)"
  and walk_entries_descends:
  "(root, es) \<in> set (walk_entries dirpath ents) \<Longrightarrow> (n, Dir es') \<in> set es \<Longrightarrow>
      (path_join root n, es') \<in> set (walk_entries dirpath ents)"
  by (induction dirpath node and dirpath ents rule: walk_walk_entries.induct)
     (auto simp: walk_entries_child)

text \<open>
  The walk does not look at the suffix: every subdirectory of a directory it visits is
  visited too, also below a directory whose path ends with the suffix.
\<close>

lemma os_walk_descends:
  "(root, es) \<in> set (os_walk fs filepath) \<Longrightarrow> (n, Dir es') \<in> set es \<Longrightarrow>
      (path_join root n, es') \<in> set (os_walk fs filepath)"
  unfolding os_walk_def by (cases "scandir fs filepath") (simp_all add: walk_descends del: walk.simps)


lemma os_walk_bracket:
  "os_walk bracket_fs ''d'' =
     [(''d'', [(''skip'', Dir [(''secret.json'', File)]), (''s[k]ip'', Dir [(''own.json'', File)])]),
      (''d/skip'', [(''secret.json'', File)]),
      (''d/s[k]ip'', [(''own.json'', File)])]"
  by (simp add: os_walk_def scandir_def bracket_fs_def bracket_tree_def path_join_def)

text \<open>
  C6 does not hold of the code. In the tree with \<open>d/skip/secret.json\<close> and
  \<open>d/s[k]ip/own.json\<close>, with the mask \<open>*.json\<close> and the suffix \<open>skip\<close>, the directory
  \<open>d/skip\<close> is visited, its path ends with the suffix, and \<open>get_files\<close> returns the file
  that lies directly in it. The path of a visited directory is handed to \<open>glob\<close> as
  part of the pattern, so the pattern built for \<open>d/s[k]ip\<close> matches the files of
  \<open>d/skip\<close>; the files of \<open>d/s[k]ip\<close> itself are not returned.
\<close>

theorem get_files_returns_file_of_excluded_directory:
  "get_files bracket_fs bracket_glob sample_abspath ''d'' ''*.json'' ''skip''
     = Return [''/home/d/skip/secret.json'']
   \<and> (''d/skip'', [(''secret.json'', File)]) \<in> set (os_walk bracket_fs ''d'')
   \<and> endswith ''d/skip'' ''skip''
   \<and> sample_abspath (path_join ''d/skip'' ''secret.json'') = ''/home/d/skip/secret.json''"
  unfolding get_files_def os_walk_bracket
  by (simp add: bracket_glob_def endswith_def path_join_def sample_abspath_def)

lemma os_walk_sample:
  "os_walk sample_fs ''data'' =
    [(''data'',
      [(''a.json'', File),
       (''.ipynb_checkpoints'',
          Dir [(''a-checkpoint.json'', File), (''deep'', Dir [(''b.json'', File)])]),
       (''A'', Dir [(''c.json'', File), (''notes.txt'', File)])]),
     (''data/.ipynb_checkpoints'',
      [(''a-checkpoint.json'', File), (''deep'', Dir [(''b.json'', File)])]),
     (''data/.ipynb_checkpoints/deep'', [(''b.json'', File)]),
     (''data/A'', [(''c.json'', File), (''notes.txt'', File)])]"
  by (simp add: os_walk_def scandir_def sample_fs_def sample_tree_def path_join_def)




section \<open>Event files\<close>

lemma execute_committed:
  "execute q args c = (r, c') \<Longrightarrow> committed c' = committed c"
  by (auto simp: execute_def split: if_splits sum.splits)

lemma execute_each_committed:
  "execute_each q rows c = (r, c') \<Longrightarrow> committed c' = committed c"
proof (induction rows arbitrary: c)
  case Nil
  then show ?case by simp
next
  case (Cons a rows)
  obtain r1 c1 where e: "execute q a c = (r1, c1)" by (cases "execute q a c")
  show ?case
  proof (cases r1)
    case (Raise x)
    with Cons.prems e execute_committed[OF e] show ?thesis by simp
  next
    case (Return u)
    with Cons.prems e have "execute_each q rows c1 = (r, c')" by simp
    from Cons.IH[OF this] execute_committed[OF e] show ?thesis by simp
  qed
qed

lemma execute_dimension_frame:
  assumes "execute q args c = (r, c')" and "q = time_table_insert \<or> q = user_table_insert"
  shows "songs (pending c') = songs (pending c) \<and> artists (pending c') = artists (pending c)
     \<and> songplays (pending c') = songplays (pending c)"
  using assms by (auto simp: execute_def split: if_splits sum.splits)

lemma execute_each_dimension_frame:
  assumes "execute_each q rows c = (r, c')" and "q = time_table_insert \<or> q = user_table_insert"
  shows "songs (pending c') = songs (pending c) \<and> artists (pending c') = artists (pending c)
     \<and> songplays (pending c') = songplays (pending c)"
  using assms(1)
proof (induction rows arbitrary: c)
  case Nil
  then show ?case by simp
next
  case (Cons a rows)
  obtain r1 c1 where e: "execute q a c = (r1, c1)" by (cases "execute q a c")
  note f = execute_dimension_frame[OF e assms(2)]
  show ?case
  proof (cases r1)
    case (Raise x)
    with Cons.prems e f show ?thesis by simp
  next
    case (Return u)
    with Cons.prems e have "execute_each q rows c1 = (r, c')" by simp
    from Cons.IH[OF this] f show ?thesis by simp
  qed
qed

lemma songplay_loop_rows:
  "songplay_loop d df acc = Return rows \<Longrightarrow>
     \<exists>rs. rows = acc @ rs \<and> map (songplay_row_of d) df = map Return rs"
proof (induction df arbitrary: acc)
  case Nil
  then show ?case by simp
next
  case (Cons e df)
  then obtain r where r: "songplay_row_of d e = Return r"
    and rest: "songplay_loop d df (acc @ [r]) = Return rows"
    by (auto split: result.splits)
  from Cons.IH[OF rest] obtain rs where "rows = (acc @ [r]) @ rs"
    and "map (songplay_row_of d) df = map Return rs" by blast
  then have "rows = acc @ (r # rs) \<and> map (songplay_row_of d) (e # df) = map Return (r # rs)"
    using r by simp
  then show ?case by blast
qed

lemma songplay_row_of_cong:
  "songs d = songs d' \<Longrightarrow> artists d = artists d' \<Longrightarrow> songplay_row_of d e = songplay_row_of d' e"
  by (simp add: songplay_row_of_def song_select_def)

lemma songplay_row_of_fields:
  assumes "songplay_row_of d e = Return r"
  shows "sp_start_time r = IntV (ts e) \<and> sp_user_id r = userId e \<and> sp_level r = level e
     \<and> sp_session_id r = sessionId e \<and> sp_location r = location e"
  using assms
  by (auto simp: songplay_row_of_def split: result.splits prod.splits)

lemma process_log_file_Return:
  assumes "read_json filepath = Inr df0"
    and "process_log_file cal read_json to_csv cursor_copy_from filepath c = (Return u, c')"
  shows "\<exists>c1 c2 rows. df0 \<noteq> []
     \<and> execute_each time_table_insert
          (map (time_data cal) (filter (\<lambda>row. page row = StrV ''NextSong'') df0)) c = (Return (), c1)
     \<and> execute_each user_table_insert
          (map user_data (sort_values_ts_desc (filter (\<lambda>row. page row = StrV ''NextSong'') df0))) c1
            = (Return (), c2)
     \<and> songplay_loop (pending c2) (filter (\<lambda>row. page row = StrV ''NextSong'') df0) [] = Return rows
     \<and> c' = snd (copy_from_stringio to_csv cursor_copy_from c2 rows ''songplays''
               (Some songplay_cols))"
  using assms
  by (auto simp: process_log_file_def Let_def split: if_splits prod.splits result.splits)

lemma song_select_set:
  "song_select [t, n, dur] d = Return rows \<Longrightarrow>
     set rows = {(s_song_id s, s_artist_id s) | s a.
        s \<in> set (songs d) \<and> a \<in> set (artists d) \<and> s_artist_id s = a_artist_id a
        \<and> s_artist_id s \<noteq> Null \<and> s_title s = t \<and> t \<noteq> Null \<and> a_name a = n \<and> n \<noteq> Null
        \<and> s_duration_str s = dur \<and> dur \<noteq> Null}"
proof -
  assume "song_select [t, n, dur] d = Return rows"
  then have rows: "rows = map (\<lambda>(s, a). (s_song_id s, s_artist_id s))
          (filter (\<lambda>(s, a). sql_eq (s_artist_id s) (a_artist_id a)
                     \<and> sql_eq (s_title s) t \<and> sql_eq (a_name a) n
                     \<and> sql_eq (s_duration_str s) dur)
             (List.product (songs d) (artists d)))"
    by (simp add: song_select_def split: if_splits)
  show ?thesis
  proof (rule set_eqI)
    fix x
    show "x \<in> set rows \<longleftrightarrow> x \<in> {(s_song_id s, s_artist_id s) | s a.
        s \<in> set (songs d) \<and> a \<in> set (artists d) \<and> s_artist_id s = a_artist_id a
        \<and> s_artist_id s \<noteq> Null \<and> s_title s = t \<and> t \<noteq> Null \<and> a_name a = n \<and> n \<noteq> Null
        \<and> s_duration_str s = dur \<and> dur \<noteq> Null}"
      unfolding rows by (auto simp: sql_eq_def image_iff) metis
  qed
qed

lemma songplay_row_of_ids:
  assumes "songplay_row_of d e = Return r"
  shows "(if {(s_song_id s, s_artist_id s) | s a.
        s \<in> set (songs d) \<and> a \<in> set (artists d) \<and> s_artist_id s = a_artist_id a
        \<and> s_artist_id s \<noteq> Null \<and> s_title s = song e \<and> song e \<noteq> Null
        \<and> a_name a = artist e \<and> artist e \<noteq> Null
        \<and> s_duration_str s = StrV (py_str (song_length e))} = {}
      then sp_song_id r = Null \<and> sp_artist_id r = Null
      else (sp_song_id r, sp_artist_id r) \<in> {(s_song_id s, s_artist_id s) | s a.
        s \<in> set (songs d) \<and> a \<in> set (artists d) \<and> s_artist_id s = a_artist_id a
        \<and> s_artist_id s \<noteq> Null \<and> s_title s = song e \<and> song e \<noteq> Null
        \<and> a_name a = artist e \<and> artist e \<noteq> Null
        \<and> s_duration_str s = StrV (py_str (song_length e))})"
proof -
  define M where "M = {(s_song_id s, s_artist_id s) | s a.
        s \<in> set (songs d) \<and> a \<in> set (artists d) \<and> s_artist_id s = a_artist_id a
        \<and> s_artist_id s \<noteq> Null \<and> s_title s = song e \<and> song e \<noteq> Null
        \<and> a_name a = artist e \<and> artist e \<noteq> Null
        \<and> s_duration_str s = StrV (py_str (song_length e))}"
  from assms obtain rows where
    sel: "song_select [song e, artist e, StrV (py_str (song_length e))] d = Return rows"
    and ids: "(sp_song_id r, sp_artist_id r) =
       (case fetchone rows of Some results \<Rightarrow> results | None \<Rightarrow> (Null, Null))"
    by (auto simp: songplay_row_of_def split: result.splits prod.splits)
  have M: "set rows = M"
    using song_select_set[OF sel] by (simp add: M_def)
  have "if M = {} then sp_song_id r = Null \<and> sp_artist_id r = Null
        else (sp_song_id r, sp_artist_id r) \<in> M"
  proof (cases rows)
    case Nil
    with M ids show ?thesis by (simp add: fetchone_def)
  next
    case (Cons x xs)
    with ids have "(sp_song_id r, sp_artist_id r) \<in> set rows" and "set rows \<noteq> {}"
      by (simp_all add: fetchone_def)
    with M show ?thesis by simp
  qed
  then show ?thesis unfolding M_def .
qed

lemma execute_time_frame:
  "execute time_table_insert args c = (r, c') \<Longrightarrow> users (pending c') = users (pending c)"
  by (auto simp: execute_def split: if_splits sum.splits)

lemma execute_user_frame:
  "execute user_table_insert args c = (r, c') \<Longrightarrow> time_tbl (pending c') = time_tbl (pending c)"
  by (auto simp: execute_def split: if_splits sum.splits)

lemma execute_each_time_frame:
  "execute_each time_table_insert rows c = (r, c') \<Longrightarrow> users (pending c') = users (pending c)"
proof (induction rows arbitrary: c)
  case Nil
  then show ?case by simp
next
  case (Cons a rows)
  obtain r1 c1 where e: "execute time_table_insert a c = (r1, c1)"
    by (cases "execute time_table_insert a c")
  with Cons execute_time_frame[OF e] show ?case
    by (cases r1) auto
qed

lemma execute_each_user_frame:
  "execute_each user_table_insert rows c = (r, c') \<Longrightarrow> time_tbl (pending c') = time_tbl (pending c)"
proof (induction rows arbitrary: c)
  case Nil
  then show ?case by simp
next
  case (Cons a rows)
  obtain r1 c1 where e: "execute user_table_insert a c = (r1, c1)"
    by (cases "execute user_table_insert a c")
  with Cons execute_user_frame[OF e] show ?case
    by (cases r1) auto
qed

lemma user_level_update_keys:
  "map u_user_id (map (\<lambda>r. if u_user_id r = k then r\<lparr>u_level := v\<rparr> else r) xs)
     = map u_user_id xs"
  by (induction xs) auto

lemma execute_keys:
  assumes "execute q a c = (Return u, c')"
  shows "keys_of q (pending c') = insert (a ! 0) (keys_of q (pending c))"
proof (cases q)
  case user_table_insert
  show ?thesis
  proof (cases "a ! 0 \<in> set (map u_user_id (users (pending c)))")
    case True
    with assms user_table_insert
    have "users (pending c') =
       map (\<lambda>r. if u_user_id r = a ! 0 then r\<lparr>u_level := a ! 4\<rparr> else r) (users (pending c))"
      by (auto simp: execute_def split: if_splits)
    then have "map u_user_id (users (pending c')) = map u_user_id (users (pending c))"
      by (simp only: user_level_update_keys)
    with True user_table_insert show ?thesis
      by (auto simp: keys_of_def simp del: set_map)
  next
    case False
    with assms user_table_insert show ?thesis
      by (auto simp: execute_def keys_of_def split: if_splits)
  qed
qed (use assms in \<open>auto simp: execute_def keys_of_def split: if_splits\<close>)

lemma time_data_key: "time_data cal row ! 0 = IntV (ts row)"
  by (simp add: time_data_def split: prod.splits)

lemma user_data_key: "user_data row ! 0 = userId row"
  by (simp add: user_data_def)

lemma execute_each_keys:
  "execute_each q rows c = (Return u, c') \<Longrightarrow>
     keys_of q (pending c') = keys_of q (pending c) \<union> (\<lambda>a. a ! 0) ` set rows"
proof (induction rows arbitrary: c)
  case Nil
  then show ?case by simp
next
  case (Cons a rows)
  then obtain u1 c1 where e: "execute q a c = (Return u1, c1)"
    and rest: "execute_each q rows c1 = (Return u, c')"
    by (auto split: prod.splits result.splits)
  from Cons.IH[OF rest] execute_keys[OF e] show ?case by auto
qed

text \<open>
  What \<open>process_log_file\<close> hands to the bulk loader when nothing before it raises: the
  transaction with the time and user rows of the retained events, and one frame row
  per retained event.
\<close>

lemma process_log_file_handover:
  assumes rd: "read_json filepath = Inr df0"
    and run: "process_log_file cal read_json to_csv cursor_copy_from filepath c = (Return u, c')"
  shows "\<exists>c2 rs.
       c' = snd (copy_from_stringio to_csv cursor_copy_from c2 rs ''songplays''
                  (Some songplay_cols))
     \<and> map (songplay_row_of (pending c)) (filter (\<lambda>row. page row = StrV ''NextSong'') df0)
          = map Return rs
     \<and> execute_each user_table_insert
          (map user_data (sort_values_ts_desc (filter (\<lambda>row. page row = StrV ''NextSong'') df0)))
          (snd (execute_each time_table_insert
             (map (time_data cal) (filter (\<lambda>row. page row = StrV ''NextSong'') df0)) c))
          = (Return (), c2)
     \<and> committed c2 = committed c
     \<and> songs (pending c2) = songs (pending c)
     \<and> artists (pending c2) = artists (pending c)
     \<and> songplays (pending c2) = songplays (pending c)
     \<and> keys_of time_table_insert (pending c2) = keys_of time_table_insert (pending c)
          \<union> (\<lambda>row. IntV (ts row)) ` set (filter (\<lambda>row. page row = StrV ''NextSong'') df0)
     \<and> keys_of user_table_insert (pending c2) = keys_of user_table_insert (pending c)
          \<union> userId ` set (filter (\<lambda>row. page row = StrV ''NextSong'') df0)"
proof -
  let ?df = "filter (\<lambda>row. page row = StrV ''NextSong'') df0"
  from process_log_file_Return[OF rd run] obtain c1 c2 rows where
    t: "execute_each time_table_insert (map (time_data cal) ?df) c = (Return (), c1)"
    and us: "execute_each user_table_insert (map user_data (sort_values_ts_desc ?df)) c1
            = (Return (), c2)"
    and loop: "songplay_loop (pending c2) ?df [] = Return rows"
    and c': "c' = snd (copy_from_stringio to_csv cursor_copy_from c2 rows ''songplays''
               (Some songplay_cols))"
    by blast
  have f1: "songs (pending c1) = songs (pending c) \<and> artists (pending c1) = artists (pending c)
     \<and> songplays (pending c1) = songplays (pending c)"
    using execute_each_dimension_frame[OF t] by simp
  have f2: "songs (pending c2) = songs (pending c1) \<and> artists (pending c2) = artists (pending c1)
     \<and> songplays (pending c2) = songplays (pending c1)"
    using execute_each_dimension_frame[OF us] by simp
  from songplay_loop_rows[OF loop] have m2: "map (songplay_row_of (pending c2)) ?df = map Return rows"
    by simp
  have "songplay_row_of (pending c2) = songplay_row_of (pending c)"
    using f1 f2 by (intro ext songplay_row_of_cong) simp_all
  with m2 have m: "map (songplay_row_of (pending c)) ?df = map Return rows" by simp
  have durable: "committed c2 = committed c"
    using execute_each_committed[OF t] execute_each_committed[OF us] by simp
  have tk: "keys_of time_table_insert (pending c1) = keys_of time_table_insert (pending c)
                \<union> (\<lambda>row. IntV (ts row)) ` set ?df"
    using execute_each_keys[OF t] by (simp add: image_image time_data_key)
  have uk: "keys_of user_table_insert (pending c2) = keys_of user_table_insert (pending c1)
                \<union> userId ` set ?df"
    using execute_each_keys[OF us]
    by (simp add: image_image user_data_key sort_values_ts_desc_def)
  have tk2: "keys_of time_table_insert (pending c2) = keys_of time_table_insert (pending c1)"
    using execute_each_user_frame[OF us] by (simp add: keys_of_def)
  have uk1: "keys_of user_table_insert (pending c1) = keys_of user_table_insert (pending c)"
    using execute_each_time_frame[OF t] by (simp add: keys_of_def)
  have us': "execute_each user_table_insert (map user_data (sort_values_ts_desc ?df))
          (snd (execute_each time_table_insert (map (time_data cal) ?df) c)) = (Return (), c2)"
    using t us by simp
  show ?thesis
    using c' m us' durable f1 f2 tk uk tk2 uk1 by (intro exI[of _ c2] exI[of _ rows]) simp
qed

text \<open>
  C5. Let \<open>process_log_file\<close> return on a file. Then the frame it hands to
  \<open>copy_from_stringio\<close> for \<open>songplays\<close> has one row per retained event (those with
  \<open>page = "NextSong"\<close>), in frame order, and the row of an event carries the ids found
  by \<open>song_select\<close>: the \<open>(song_id, artist_id)\<close> of a song and an artist of the store,
  joined on \<open>artist_id\<close>, whose title, artist name and \<open>duration_str\<close> equal the event's
  song, artist and \<open>str(length)\<close>; when no such pair exists, both ids are \<open>NULL\<close>. The
  comparison is with the stored duration string, never with \<open>duration_float\<close>. (On an
  event whose song or artist is a number or NaN the query is an error, and
  \<open>process_log_file\<close> does not return.)
\<close>

theorem process_log_file_resolves_ids:
  assumes "read_json filepath = Inr df0"
    and "process_log_file cal read_json to_csv cursor_copy_from filepath c = (Return u, c')"
    and "df = filter (\<lambda>row. page row = StrV ''NextSong'') df0"
  shows "\<exists>c2 rows.
       c' = snd (copy_from_stringio to_csv cursor_copy_from c2 rows ''songplays''
                  (Some songplay_cols))
     \<and> length rows = length df
     \<and> (\<forall>i<length df.
          sp_start_time (rows ! i) = IntV (ts (df ! i))
        \<and> sp_user_id (rows ! i) = userId (df ! i)
        \<and> sp_session_id (rows ! i) = sessionId (df ! i)
        \<and> (if {(s_song_id s, s_artist_id s) | s a.
                 s \<in> set (songs (pending c)) \<and> a \<in> set (artists (pending c))
                 \<and> s_artist_id s = a_artist_id a \<and> s_artist_id s \<noteq> Null
                 \<and> s_title s = song (df ! i) \<and> song (df ! i) \<noteq> Null
                 \<and> a_name a = artist (df ! i) \<and> artist (df ! i) \<noteq> Null
                 \<and> s_duration_str s = StrV (py_str (song_length (df ! i)))} = {}
            then sp_song_id (rows ! i) = Null \<and> sp_artist_id (rows ! i) = Null
            else (sp_song_id (rows ! i), sp_artist_id (rows ! i)) \<in>
              {(s_song_id s, s_artist_id s) | s a.
                 s \<in> set (songs (pending c)) \<and> a \<in> set (artists (pending c))
                 \<and> s_artist_id s = a_artist_id a \<and> s_artist_id s \<noteq> Null
                 \<and> s_title s = song (df ! i) \<and> song (df ! i) \<noteq> Null
                 \<and> a_name a = artist (df ! i) \<and> artist (df ! i) \<noteq> Null
                 \<and> s_duration_str s = StrV (py_str (song_length (df ! i)))}))"
proof -
  from process_log_file_handover[OF assms(1,2)] assms(3) obtain c2 rs where
    c': "c' = snd (copy_from_stringio to_csv cursor_copy_from c2 rs ''songplays''
                  (Some songplay_cols))"
    and m: "map (songplay_row_of (pending c)) df = map Return rs"
    by auto
  have len: "length rs = length df" using m by (metis length_map)
  have row: "songplay_row_of (pending c) (df ! i) = Return (rs ! i)" if "i < length df" for i
    using m that len by (metis nth_map)
  show ?thesis
  proof (intro exI[of _ c2] exI[of _ rs] conjI allI impI)
    show "c' = snd (copy_from_stringio to_csv cursor_copy_from c2 rs ''songplays''
                  (Some songplay_cols))" by (rule c')
    show "length rs = length df" by (rule len)
  next
    fix i assume i: "i < length df"
    from songplay_row_of_fields[OF row[OF i]]
    show "sp_start_time (rs ! i) = IntV (ts (df ! i))"
      and "sp_user_id (rs ! i) = userId (df ! i)"
      and "sp_session_id (rs ! i) = sessionId (df ! i)"
      by simp_all
    from songplay_row_of_ids[OF row[OF i]]
    show "(if {(s_song_id s, s_artist_id s) | s a.
                 s \<in> set (songs (pending c)) \<and> a \<in> set (artists (pending c))
                 \<and> s_artist_id s = a_artist_id a \<and> s_artist_id s \<noteq> Null
                 \<and> s_title s = song (df ! i) \<and> song (df ! i) \<noteq> Null
                 \<and> a_name a = artist (df ! i) \<and> artist (df ! i) \<noteq> Null
                 \<and> s_duration_str s = StrV (py_str (song_length (df ! i)))} = {}
            then sp_song_id (rs ! i) = Null \<and> sp_artist_id (rs ! i) = Null
            else (sp_song_id (rs ! i), sp_artist_id (rs ! i)) \<in>
              {(s_song_id s, s_artist_id s) | s a.
                 s \<in> set (songs (pending c)) \<and> a \<in> set (artists (pending c))
                 \<and> s_artist_id s = a_artist_id a \<and> s_artist_id s \<noteq> Null
                 \<and> s_title s = song (df ! i) \<and> song (df ! i) \<noteq> Null
                 \<and> a_name a = artist (df ! i) \<and> artist (df ! i) \<noteq> Null
                 \<and> s_duration_str s = StrV (py_str (song_length (df ! i)))})" .
  qed
qed

text \<open>
  C8. Two event files with the same retained events, those whose \<open>page\<close> is
  \<open>"NextSong"\<close>, are processed to the same outcome and the same store: an event that
  fails the filter leaves no trace in any table. When \<open>process_log_file\<close> returns, the
  frame handed to the bulk loader has exactly one row per retained event, and in the
  transaction handed over with it \<open>songplays\<close> is still as before, the keys of \<open>time\<close>
  and \<open>users\<close> are the former keys and the timestamps and user ids of the retained
  events, and nothing is durable yet.
\<close>

theorem process_log_file_keeps_nextsong_only:
  assumes "read0 filepath = Inr df0" and "read1 filepath = Inr df1"
    and "df0 \<noteq> []" and "df1 \<noteq> []"
    and "filter (\<lambda>row. page row = StrV ''NextSong'') df0
           = filter (\<lambda>row. page row = StrV ''NextSong'') df1"
  shows "process_log_file cal read0 to_csv cursor_copy_from filepath c
           = process_log_file cal read1 to_csv cursor_copy_from filepath c
     \<and> (\<forall>u c'. process_log_file cal read0 to_csv cursor_copy_from filepath c = (Return u, c')
          \<longrightarrow> (\<exists>c2 rows.
                 c' = snd (copy_from_stringio to_csv cursor_copy_from c2 rows ''songplays''
                            (Some songplay_cols))
               \<and> length rows = length (filter (\<lambda>row. page row = StrV ''NextSong'') df0)
               \<and> committed c2 = committed c
               \<and> songplays (pending c2) = songplays (pending c)
               \<and> set (map t_start_time (time_tbl (pending c2)))
                    = set (map t_start_time (time_tbl (pending c)))
                      \<union> (\<lambda>row. IntV (ts row))
                          ` set (filter (\<lambda>row. page row = StrV ''NextSong'') df0)
               \<and> set (map u_user_id (users (pending c2)))
                    = set (map u_user_id (users (pending c)))
                      \<union> userId ` set (filter (\<lambda>row. page row = StrV ''NextSong'') df0)))"
proof (intro conjI allI impI)
  show "process_log_file cal read0 to_csv cursor_copy_from filepath c
           = process_log_file cal read1 to_csv cursor_copy_from filepath c"
    using assms by (simp add: process_log_file_def)
next
  fix u c'
  assume h: "process_log_file cal read0 to_csv cursor_copy_from filepath c = (Return u, c')"
  from process_log_file_handover[where read_json = read0, OF assms(1) h] obtain c2 rs where
    c': "c' = snd (copy_from_stringio to_csv cursor_copy_from c2 rs ''songplays''
                  (Some songplay_cols))"
    and m: "map (songplay_row_of (pending c)) (filter (\<lambda>row. page row = StrV ''NextSong'') df0)
              = map Return rs"
    and durable: "committed c2 = committed c"
    and sp: "songplays (pending c2) = songplays (pending c)"
    and tk: "keys_of time_table_insert (pending c2) = keys_of time_table_insert (pending c)
                \<union> (\<lambda>row. IntV (ts row)) ` set (filter (\<lambda>row. page row = StrV ''NextSong'') df0)"
    and uk: "keys_of user_table_insert (pending c2) = keys_of user_table_insert (pending c)
                \<union> userId ` set (filter (\<lambda>row. page row = StrV ''NextSong'') df0)"
    by blast
  have len: "length rs = length (filter (\<lambda>row. page row = StrV ''NextSong'') df0)"
    using m by (metis length_map)
  show "\<exists>c2 rows.
                 c' = snd (copy_from_stringio to_csv cursor_copy_from c2 rows ''songplays''
                            (Some songplay_cols))
               \<and> length rows = length (filter (\<lambda>row. page row = StrV ''NextSong'') df0)
               \<and> committed c2 = committed c
               \<and> songplays (pending c2) = songplays (pending c)
               \<and> set (map t_start_time (time_tbl (pending c2)))
                    = set (map t_start_time (time_tbl (pending c)))
                      \<union> (\<lambda>row. IntV (ts row))
                          ` set (filter (\<lambda>row. page row = StrV ''NextSong'') df0)
               \<and> set (map u_user_id (users (pending c2)))
                    = set (map u_user_id (users (pending c)))
                      \<union> userId ` set (filter (\<lambda>row. page row = StrV ''NextSong'') df0)"
    using c' len durable sp tk uk
    by (intro exI[of _ c2] exI[of _ rs]) (simp add: keys_of_def)
qed

lemmas sample_defs =
  sample_log_def log_event_def sample_cal_def catalog_db_def empty_db_def song1_def artist1_def
  user7_def connect_def

lemmas run_defs =
  process_log_file_def execute_def time_data_def user_data_def sort_values_ts_desc_def
  songplay_row_of_def song_select_def sql_eq_def fetchone_def copy_from_stringio_def
  accepting_copy_def frame_buffer_def commit_def rollback_def Let_def

lemma sample_log_run:
  "process_log_file sample_cal (\<lambda>p. Inr sample_log) frame_buffer accepting_copy ''log.json''
       (connect catalog_db) =
     (Return (), connect (catalog_db\<lparr>
        users := [user7],
        time_tbl :=
          [\<lparr>t_start_time = IntV 1000, t_hour = IntV 0, t_day = IntV 1, t_week = IntV 1,
             t_month = IntV 1, t_year = IntV 1970, t_weekday = IntV 3\<rparr>,
           \<lparr>t_start_time = IntV 2000, t_hour = IntV 0, t_day = IntV 1, t_week = IntV 1,
             t_month = IntV 1, t_year = IntV 1970, t_weekday = IntV 3\<rparr>],
        songplays :=
          [\<lparr>sp_start_time = IntV 1000, sp_user_id = StrV ''7'', sp_level = StrV ''free'',
             sp_song_id = StrV ''SOUPIRU'', sp_artist_id = StrV ''ARJIE2Y'',
             sp_session_id = IntV 139, sp_location = StrV ''Lund'',
             sp_user_agent = StrV ''Moz''\<rparr>,
           \<lparr>sp_start_time = IntV 2000, sp_user_id = StrV ''7'', sp_level = StrV ''paid'',
             sp_song_id = Null, sp_artist_id = Null, sp_session_id = IntV 139,
             sp_location = StrV ''Lund'', sp_user_agent = StrV ''Moz''\<rparr>]\<rparr>))"
  by (simp add: run_defs sample_defs)

theorem process_log_file_resolves_ids_witness:
  "map (\<lambda>r. (sp_song_id r, sp_artist_id r))
     (songplays (committed (snd (process_log_file sample_cal (\<lambda>p. Inr sample_log)
        frame_buffer accepting_copy ''log.json'' (connect catalog_db)))))
     = [(StrV ''SOUPIRU'', StrV ''ARJIE2Y''), (Null, Null)]
   \<and> (\<exists>c2 rows. snd (process_log_file sample_cal (\<lambda>p. Inr sample_log)
          frame_buffer accepting_copy ''log.json'' (connect catalog_db))
        = snd (copy_from_stringio frame_buffer accepting_copy c2 rows ''songplays''
                (Some songplay_cols))
        \<and> length rows = 2)"
proof -
  have rd: "(\<lambda>p. Inr sample_log) ''log.json'' = (Inr sample_log :: py_error + event list)" by simp
  have run: "process_log_file sample_cal (\<lambda>p. Inr sample_log) frame_buffer accepting_copy
       ''log.json'' (connect catalog_db)
     = (Return (), snd (process_log_file sample_cal (\<lambda>p. Inr sample_log) frame_buffer
          accepting_copy ''log.json'' (connect catalog_db)))"
    by (simp add: sample_log_run)
  have df: "[sample_log ! 0, sample_log ! 2] = filter (\<lambda>row. page row = StrV ''NextSong'') sample_log"
    by (simp add: sample_defs)
  from process_log_file_resolves_ids[OF rd run df] obtain c2 rows where
    handed: "snd (process_log_file sample_cal (\<lambda>p. Inr sample_log)
          frame_buffer accepting_copy ''log.json'' (connect catalog_db))
        = snd (copy_from_stringio frame_buffer accepting_copy c2 rows ''songplays''
                (Some songplay_cols))"
    and len: "length rows = length [sample_log ! 0, sample_log ! 2]"
    by blast
  from len have "length rows = 2" by simp
  with handed
  have "\<exists>c2 rows. snd (process_log_file sample_cal (\<lambda>p. Inr sample_log)
          frame_buffer accepting_copy ''log.json'' (connect catalog_db))
        = snd (copy_from_stringio frame_buffer accepting_copy c2 rows ''songplays''
                (Some songplay_cols))
        \<and> length rows = 2"
    by blast
  moreover have "map (\<lambda>r. (sp_song_id r, sp_artist_id r))
     (songplays (committed (snd (process_log_file sample_cal (\<lambda>p. Inr sample_log)
        frame_buffer accepting_copy ''log.json'' (connect catalog_db)))))
     = [(StrV ''SOUPIRU'', StrV ''ARJIE2Y''), (Null, Null)]"
    unfolding sample_log_run by (simp add: connect_def)
  ultimately show ?thesis by simp
qed

theorem process_log_file_keeps_nextsong_only_witness:
  "process_log_file sample_cal (\<lambda>p. Inr sample_log) frame_buffer accepting_copy ''log.json''
       (connect catalog_db)
     = process_log_file sample_cal (\<lambda>p. Inr [sample_log ! 0, sample_log ! 2]) frame_buffer
         accepting_copy ''log.json'' (connect catalog_db)
   \<and> (\<exists>c2 rows. snd (process_log_file sample_cal (\<lambda>p. Inr sample_log)
          frame_buffer accepting_copy ''log.json'' (connect catalog_db))
        = snd (copy_from_stringio frame_buffer accepting_copy c2 rows ''songplays''
                (Some songplay_cols))
        \<and> length rows = 2
        \<and> set (map u_user_id (users (pending c2))) = {StrV ''7''})"
proof -
  have rd0: "(\<lambda>p. Inr sample_log) ''log.json'' = (Inr sample_log :: py_error + event list)" by simp
  have rd1: "(\<lambda>p. Inr [sample_log ! 0, sample_log ! 2]) ''log.json''
      = (Inr [sample_log ! 0, sample_log ! 2] :: py_error + event list)" by simp
  have ne0: "sample_log \<noteq> []" by (simp add: sample_log_def)
  have ne1: "[sample_log ! 0, sample_log ! 2] \<noteq> []" by simp
  have same: "filter (\<lambda>row. page row = StrV ''NextSong'') sample_log
      = filter (\<lambda>row. page row = StrV ''NextSong'') [sample_log ! 0, sample_log ! 2]"
    by (simp add: sample_defs)
  have run: "process_log_file sample_cal (\<lambda>p. Inr sample_log) frame_buffer accepting_copy
       ''log.json'' (connect catalog_db)
     = (Return (), snd (process_log_file sample_cal (\<lambda>p. Inr sample_log) frame_buffer
          accepting_copy ''log.json'' (connect catalog_db)))"
    by (simp add: sample_log_run)
  have len: "length (filter (\<lambda>row. page row = StrV ''NextSong'') sample_log) = 2"
    by (simp add: sample_defs)
  have ids: "userId ` set (filter (\<lambda>row. page row = StrV ''NextSong'') sample_log) = {StrV ''7''}"
    by (simp add: sample_defs)
  have 0: "users (pending (connect catalog_db)) = []"
    by (simp add: connect_def catalog_db_def empty_db_def)
  note t = process_log_file_keeps_nextsong_only[OF rd0 rd1 ne0 ne1 same,
      where cal = sample_cal and to_csv = frame_buffer and cursor_copy_from = accepting_copy
        and c = "connect catalog_db"]
  from t have 1: "process_log_file sample_cal (\<lambda>p. Inr sample_log) frame_buffer accepting_copy
       ''log.json'' (connect catalog_db)
     = process_log_file sample_cal (\<lambda>p. Inr [sample_log ! 0, sample_log ! 2]) frame_buffer
         accepting_copy ''log.json'' (connect catalog_db)"
    by blast
  from t run have "\<exists>c2 rows. snd (process_log_file sample_cal (\<lambda>p. Inr sample_log)
          frame_buffer accepting_copy ''log.json'' (connect catalog_db))
        = snd (copy_from_stringio frame_buffer accepting_copy c2 rows ''songplays''
                (Some songplay_cols))
        \<and> length rows = length (filter (\<lambda>row. page row = StrV ''NextSong'') sample_log)
        \<and> set (map u_user_id (users (pending c2)))
            = set (map u_user_id (users (pending (connect catalog_db))))
              \<union> userId ` set (filter (\<lambda>row. page row = StrV ''NextSong'') sample_log)"
    by blast
  then have 2: "\<exists>c2 rows. snd (process_log_file sample_cal (\<lambda>p. Inr sample_log)
          frame_buffer accepting_copy ''log.json'' (connect catalog_db))
        = snd (copy_from_stringio frame_buffer accepting_copy c2 rows ''songplays''
                (Some songplay_cols))
        \<and> length rows = 2
        \<and> set (map u_user_id (users (pending c2))) = {StrV ''7''}"
    unfolding len ids 0 by simp
  from 1 2 show ?thesis by simp
qed

subsection \<open>The level that the user upserts leave\<close>

lemma execute_each_append:
  "execute_each q (xs @ ys) c =
     (case execute_each q xs c of
        (Raise e, c') \<Rightarrow> (Raise e, c')
      | (Return u, c') \<Rightarrow> execute_each q ys c')"
  by (induction xs arbitrary: c) (auto split: prod.splits result.splits)

lemma execute_user_level:
  assumes "execute user_table_insert a c = (Return u, c')"
  shows "(\<forall>r\<in>set (users (pending c')). u_user_id r = a ! 0 \<longrightarrow> u_level r = a ! 4)
     \<and> (\<forall>r\<in>set (users (pending c')). u_user_id r \<noteq> a ! 0 \<longrightarrow> r \<in> set (users (pending c)))"
proof (cases "a ! 0 \<in> set (map u_user_id (users (pending c)))")
  case True
  with assms have "users (pending c') =
       map (\<lambda>r. if u_user_id r = a ! 0 then r\<lparr>u_level := a ! 4\<rparr> else r) (users (pending c))"
    by (auto simp: execute_def split: if_splits)
  then show ?thesis by auto
next
  case False
  with assms have "users (pending c') = users (pending c) @
             [\<lparr>u_user_id = a ! 0, u_first_name = a ! 1, u_last_name = a ! 2, u_gender = a ! 3,
               u_level = a ! 4\<rparr>]"
    by (auto simp: execute_def split: if_splits)
  moreover from False have "u_user_id r \<noteq> a ! 0" if "r \<in> set (users (pending c))" for r
    using that by (metis imageI set_map)
  ultimately show ?thesis by auto
qed

lemma execute_each_Cons_Return:
  assumes "execute_each q (a # rows) c = (Return u, c')"
  shows "\<exists>u1 c1. execute q a c = (Return u1, c1) \<and> execute_each q rows c1 = (Return u, c')"
proof -
  obtain r1 c1 where e: "execute q a c = (r1, c1)" by (cases "execute q a c")
  show ?thesis
  proof (cases r1)
    case (Raise x)
    with assms e show ?thesis by simp
  next
    case (Return u1)
    with assms e show ?thesis by simp
  qed
qed

lemma execute_each_user_others:
  assumes "execute_each user_table_insert rows c = (Return u, c')"
    and "\<forall>b\<in>set rows. b ! 0 \<noteq> k"
    and "\<forall>r\<in>set (users (pending c)). u_user_id r = k \<longrightarrow> u_level r = v"
  shows "\<forall>r\<in>set (users (pending c')). u_user_id r = k \<longrightarrow> u_level r = v"
  using assms
proof (induction rows arbitrary: c)
  case Nil
  then show ?case by simp
next
  case (Cons a rows)
  from execute_each_Cons_Return[OF Cons.prems(1)] obtain u1 c1 where
    e: "execute user_table_insert a c = (Return u1, c1)"
    and rest: "execute_each user_table_insert rows c1 = (Return u, c')"
    by blast
  from Cons.prems(2) have ne: "a ! 0 \<noteq> k" and others: "\<forall>b\<in>set rows. b ! 0 \<noteq> k"
    by simp_all
  have kept: "\<forall>r\<in>set (users (pending c1)). u_user_id r = k \<longrightarrow> u_level r = v"
  proof (intro ballI impI)
    fix r assume r: "r \<in> set (users (pending c1))" and k: "u_user_id r = k"
    with ne have "u_user_id r \<noteq> a ! 0" by simp
    with execute_user_level[OF e] r have "r \<in> set (users (pending c))" by simp
    with Cons.prems(3) k show "u_level r = v" by simp
  qed
  from Cons.IH[OF rest others kept] show ?case .
qed

lemma execute_each_user_last:
  assumes "execute_each user_table_insert (pre @ a # post) c = (Return u, c')"
    and "\<forall>b\<in>set post. b ! 0 \<noteq> a ! 0"
  shows "\<forall>r\<in>set (users (pending c')). u_user_id r = a ! 0 \<longrightarrow> u_level r = a ! 4"
proof -
  obtain r1 c1 where p: "execute_each user_table_insert pre c = (r1, c1)"
    by (cases "execute_each user_table_insert pre c")
  have app: "execute_each user_table_insert (pre @ a # post) c =
     (case execute_each user_table_insert pre c of
        (Raise e, c') \<Rightarrow> (Raise e, c')
      | (Return u, c') \<Rightarrow> execute_each user_table_insert (a # post) c')"
    by (rule execute_each_append)
  have tail: "execute_each user_table_insert (a # post) c1 = (Return u, c')"
  proof (cases r1)
    case (Raise x)
    with assms(1) app p show ?thesis by simp
  next
    case (Return u1)
    with assms(1) app p show ?thesis by simp
  qed
  from execute_each_Cons_Return[OF tail] obtain u2 c2 where
    a: "execute user_table_insert a c1 = (Return u2, c2)"
    and post: "execute_each user_table_insert post c2 = (Return u, c')"
    by blast
  from execute_user_level[OF a]
  have "\<forall>r\<in>set (users (pending c2)). u_user_id r = a ! 0 \<longrightarrow> u_level r = a ! 4" by simp
  from execute_each_user_others[OF post assms(2) this] show ?thesis .
qed

lemma earliest_is_last_of_user:
  assumes "e \<in> set df"
    and "\<forall>x\<in>set df. userId x = userId e \<and> x \<noteq> e \<longrightarrow> ts e < ts x"
  shows "\<exists>pre post. sort_values_ts_desc df = pre @ e # post
           \<and> (\<forall>b\<in>set post. userId b \<noteq> userId e)"
proof -
  let ?S = "sort_values_ts_desc df"
  have "e \<in> set ?S" using assms(1) by (simp add: sort_values_ts_desc_def)
  from split_list_last[OF this] obtain pre post where
    S: "?S = pre @ e # post" and last: "e \<notin> set post" by blast
  have sorted: "sorted (map (\<lambda>row. - ts row) ?S)"
    by (simp add: sort_values_ts_desc_def)
  have "userId b \<noteq> userId e" if b: "b \<in> set post" for b
  proof
    assume same: "userId b = userId e"
    from b S have "b \<in> set df"
      by (metis Un_iff list.set_intros(2) set_append set_sort sort_values_ts_desc_def)
    moreover from b last have "b \<noteq> e" by auto
    ultimately have lt: "ts e < ts b" using assms(2) same by blast
    from sorted S b have "- ts e \<le> - ts b"
      by (auto simp: sorted_append)
    with lt show False by simp
  qed
  with S show ?thesis by blast
qed

text \<open>
  What the code does with the level, in general: when \<open>process_log_file\<close> returns, the
  level that the transaction handed to the bulk loader holds for a user, which is the
  level committed when the copy is accepted, is the level of that user's retained
  event with the earliest timestamp.
\<close>

lemma stored_level_of_earliest_event:
  assumes rd: "read_json filepath = Inr df0"
    and run: "process_log_file cal read_json to_csv cursor_copy_from filepath c = (Return u, c')"
    and e: "e \<in> set (filter (\<lambda>row. page row = StrV ''NextSong'') df0)"
    and earliest: "\<forall>x\<in>set (filter (\<lambda>row. page row = StrV ''NextSong'') df0).
                     userId x = userId e \<and> x \<noteq> e \<longrightarrow> ts e < ts x"
  shows "\<exists>c2 rows.
       c' = snd (copy_from_stringio to_csv cursor_copy_from c2 rows ''songplays''
                  (Some songplay_cols))
     \<and> userId e \<in> set (map u_user_id (users (pending c2)))
     \<and> (\<forall>r\<in>set (users (pending c2)). u_user_id r = userId e \<longrightarrow> u_level r = level e)"
proof -
  let ?df = "filter (\<lambda>row. page row = StrV ''NextSong'') df0"
  from process_log_file_handover[OF rd run] obtain c2 rows where
    c': "c' = snd (copy_from_stringio to_csv cursor_copy_from c2 rows ''songplays''
                  (Some songplay_cols))"
    and us: "execute_each user_table_insert (map user_data (sort_values_ts_desc ?df))
          (snd (execute_each time_table_insert (map (time_data cal) ?df) c)) = (Return (), c2)"
    and uk: "keys_of user_table_insert (pending c2) = keys_of user_table_insert (pending c)
          \<union> userId ` set ?df"
    by blast
  from earliest_is_last_of_user[OF e earliest] obtain pre post where
    S: "sort_values_ts_desc ?df = pre @ e # post"
    and post: "\<forall>b\<in>set post. userId b \<noteq> userId e"
    by blast
  have split: "map user_data (sort_values_ts_desc ?df)
      = map user_data pre @ user_data e # map user_data post"
    unfolding S by simp
  have others: "\<forall>b\<in>set (map user_data post). b ! 0 \<noteq> user_data e ! 0"
    using post by (simp add: user_data_def)
  from execute_each_user_last[OF us[unfolded split] others]
  have lvl: "\<forall>r\<in>set (users (pending c2)). u_user_id r = userId e \<longrightarrow> u_level r = level e"
    by (simp add: user_data_def)
  from uk e have "userId e \<in> set (map u_user_id (users (pending c2)))"
    by (auto simp: keys_of_def)
  with c' lvl show ?thesis by blast
qed

text \<open>
  C1 does not hold of the code. For the batch of two events of user 7, \<open>free\<close> at
  \<open>ts = 1000\<close> and \<open>paid\<close> at \<open>ts = 2000\<close>, in either order in the file, loaded into a
  store that accepts the bulk copy, the level stored is \<open>free\<close>, the level of the
  earliest event. The frame is sorted by descending timestamp and every row overwrites
  the level, so the row processed last, the earliest event, decides; the comment above
  the sort says the sort is there to keep the latest level.
\<close>

theorem stored_level_is_earliest_event:
  "map (\<lambda>r. (u_user_id r, u_level r)) (users (committed (snd (process_log_file sample_cal
      (\<lambda>p. Inr [log_event 1000 (StrV ''NextSong'') ''7'' (StrV ''free''),
                 log_event 2000 (StrV ''NextSong'') ''7'' (StrV ''paid'')])
      frame_buffer accepting_copy ''log.json'' (connect empty_db)))))
     = [(StrV ''7'', StrV ''free'')]
   \<and> map (\<lambda>r. (u_user_id r, u_level r)) (users (committed (snd (process_log_file sample_cal
      (\<lambda>p. Inr [log_event 2000 (StrV ''NextSong'') ''7'' (StrV ''paid''),
                 log_event 1000 (StrV ''NextSong'') ''7'' (StrV ''free'')])
      frame_buffer accepting_copy ''log.json'' (connect empty_db)))))
     = [(StrV ''7'', StrV ''free'')]"
  by (simp add: run_defs sample_defs)

section \<open>Catalog files\<close>

lemma getitems_length:
  "getitems df ks = Return vs \<Longrightarrow> length vs = length ks"
  by (induction ks arbitrary: vs) (auto split: option.splits result.splits)

lemma getitems_raises:
  "getitems df ks = Raise e \<Longrightarrow> e = KeyError"
  by (induction ks) (auto split: option.splits result.splits)

lemma execute_rows:
  assumes "execute q args c = (r, c')"
  shows "length (songs (pending c')) \<le> length (songs (pending c)) + 1
     \<and> length (artists (pending c')) \<le> length (artists (pending c)) + 1
     \<and> songplays (pending c') = songplays (pending c)"
  using assms by (cases q) (auto simp: execute_def split: if_splits)

lemma execute_song_frame:
  assumes "execute song_table_insert args c = (r, c')"
  shows "artists (pending c') = artists (pending c) \<and> users (pending c') = users (pending c)
     \<and> time_tbl (pending c') = time_tbl (pending c) \<and> committed c' = committed c"
  using assms by (auto simp: execute_def split: if_splits)

lemma execute_artist_frame:
  assumes "execute artist_table_insert args c = (r, c')"
  shows "songs (pending c') = songs (pending c) \<and> users (pending c') = users (pending c)
     \<and> time_tbl (pending c') = time_tbl (pending c) \<and> committed c' = committed c"
  using assms by (auto simp: execute_def split: if_splits)

lemma process_song_file_cases:
  assumes "read_json filepath = Inr df"
    and "process_song_file read_json filepath c = (r, c')"
  shows "(r = Raise KeyError \<and> c' = c
          \<and> getitems df [''song_id'', ''title'', ''artist_id'', ''year'', ''duration'']
               = Raise KeyError)
       \<or> (\<exists>song_data. getitems df [''song_id'', ''title'', ''artist_id'', ''year'', ''duration'']
               = Return song_data
            \<and> ((\<exists>e. execute song_table_insert song_data c = (Raise e, c') \<and> r = Raise e)
              \<or> (\<exists>u c1. execute song_table_insert song_data c = (Return u, c1)
                   \<and> ((r = Raise KeyError \<and> c' = c1)
                     \<or> (\<exists>artist_data. execute artist_table_insert artist_data c1 = (r, c'))))))"
  using assms
  by (auto simp: process_song_file_def simp del: getitems.simps
      split: result.splits prod.splits dest: getitems_raises)

lemma process_song_file_frame:
  assumes "process_song_file read_json filepath c = (r, c')"
  shows "committed c' = committed c
     \<and> length (songs (pending c')) \<le> length (songs (pending c)) + 1
     \<and> length (artists (pending c')) \<le> length (artists (pending c)) + 1
     \<and> users (pending c') = users (pending c)
     \<and> time_tbl (pending c') = time_tbl (pending c)
     \<and> songplays (pending c') = songplays (pending c)"
proof (cases "read_json filepath")
  case (Inl e)
  with assms show ?thesis by (simp add: process_song_file_def)
next
  case (Inr df)
  from process_song_file_cases[OF Inr assms]
  consider (key) "c' = c"
    | (song) song_data e where "execute song_table_insert song_data c = (Raise e, c')"
    | (artist_key) song_data u where "execute song_table_insert song_data c = (Return u, c')"
    | (artist) song_data u c1 artist_data where
        "execute song_table_insert song_data c = (Return u, c1)"
        "execute artist_table_insert artist_data c1 = (r, c')"
    by blast
  then show ?thesis
  proof cases
    case key
    then show ?thesis by simp
  next
    case song
    from execute_rows[OF song] execute_song_frame[OF song] show ?thesis by simp
  next
    case artist_key
    from execute_rows[OF artist_key] execute_song_frame[OF artist_key] show ?thesis by simp
  next
    case artist
    from execute_rows[OF artist(1)] execute_song_frame[OF artist(1)]
      execute_rows[OF artist(2)] execute_artist_frame[OF artist(2)]
    show ?thesis by simp
  qed
qed

text \<open>
  C2 does not hold of the code. For a document with all nine required fields,
  \<open>process_song_file\<close> inserts no row at all: \<open>song_data\<close> has five values for the six
  placeholders of \<open>song_table_insert\<close> (the statement names a \<open>duration_str\<close> and a
  \<open>duration_float\<close>), so \<open>cur.execute\<close> raises \<open>IndexError\<close> and the exception leaves
  \<open>process_song_file\<close> before the artist insert is reached. The source calls the step
  "insert song record".
\<close>

theorem process_song_file_complete_document_raises:
  "catalog_reader ''/home/data/A/c.json'' = Inr song_doc
   \<and> list_all (\<lambda>k. song_doc k \<noteq> None)
        [''song_id'', ''title'', ''artist_id'', ''year'', ''duration'', ''artist_name'',
         ''artist_location'', ''artist_latitude'', ''artist_longitude'']
   \<and> process_song_file catalog_reader ''/home/data/A/c.json'' (connect empty_db)
        = (Raise IndexError, connect empty_db)
   \<and> songs (pending (snd (process_song_file catalog_reader ''/home/data/A/c.json''
        (connect empty_db)))) = []
   \<and> artists (pending (snd (process_song_file catalog_reader ''/home/data/A/c.json''
        (connect empty_db)))) = []"
  by (simp add: process_song_file_def catalog_reader_def song_doc_def execute_def connect_def
      empty_db_def)

section \<open>The driver\<close>

lemma process_files_append:
  "process_files func done_files c = (Return u, c1) \<Longrightarrow>
     process_files func (done_files @ rest) c = process_files func rest c1"
proof (induction done_files arbitrary: c)
  case Nil
  then show ?case by simp
next
  case (Cons f fs)
  then obtain u' c' where f: "func f c = (Return u', c')"
    and fs: "process_files func fs (commit c') = (Return u, c1)"
    by (auto split: prod.splits result.splits)
  from Cons.IH[OF fs] f show ?case by simp
qed

lemma process_log_file_committed_on_raise:
  assumes "process_log_file cal read_json to_csv cursor_copy_from filepath c = (Raise e, c')"
  shows "committed c' = committed c"
proof (cases "read_json filepath")
  case (Inl x)
  with assms show ?thesis by (simp add: process_log_file_def)
next
  case (Inr df0)
  let ?df = "filter (\<lambda>row. page row = StrV ''NextSong'') df0"
  obtain r1 c1 where t: "execute_each time_table_insert (map (time_data cal) ?df) c = (r1, c1)"
    by (cases "execute_each time_table_insert (map (time_data cal) ?df) c")
  obtain r2 c2 where us: "execute_each user_table_insert
      (map user_data (sort_values_ts_desc ?df)) c1 = (r2, c2)"
    by (cases "execute_each user_table_insert (map user_data (sort_values_ts_desc ?df)) c1")
  from assms Inr t us have "c' = c \<or> c' = c1 \<or> c' = c2"
    by (auto simp: process_log_file_def Let_def split: if_splits result.splits)
  with execute_each_committed[OF t] execute_each_committed[OF us] show ?thesis by auto
qed

text \<open>
  C4, amended. When \<open>func\<close> raises on a file, after the files before it were
  processed, \<open>process_data\<close> ends with that exception and the connection as the
  failing call left it: the files after it are not processed and the result carries no
  count of failed files. For both \<open>process_song_file\<close> and \<open>process_log_file\<close> the
  durable state is then the one committed after the previous file: nothing of the
  failing file is committed.
\<close>

theorem process_data_stops_at_first_failure:
  assumes "get_files fs glob abspath filepath ''*.json'' ''.ipynb_checkpoints''
             = Return (done_files @ datafile # rest)"
    and "process_files func done_files c = (Return u, c1)"
    and "func datafile c1 = (Raise e, c2)"
  shows "process_data fs glob abspath func filepath c = (Raise e, c2)
     \<and> (\<forall>read_json. func = process_song_file read_json \<longrightarrow> committed c2 = committed c1)
     \<and> (\<forall>cal read_json to_csv cursor_copy_from.
           func = process_log_file cal read_json to_csv cursor_copy_from
           \<longrightarrow> committed c2 = committed c1)"
proof (intro conjI allI impI)
  show "process_data fs glob abspath func filepath c = (Raise e, c2)"
    using assms(1) process_files_append[OF assms(2), of "datafile # rest"] assms(3)
    by (simp add: process_data_def)
next
  fix read_json assume "func = process_song_file read_json"
  with assms(3) process_song_file_frame show "committed c2 = committed c1" by blast
next
  fix cal read_json to_csv cursor_copy_from
  assume "func = process_log_file cal read_json to_csv cursor_copy_from"
  with assms(3) process_log_file_committed_on_raise show "committed c2 = committed c1" by blast
qed

lemma get_files_sample:
  "get_files sample_fs sample_glob sample_abspath ''data'' ''*.json'' ''.ipynb_checkpoints'' =
     Return ([] @ ''/home/data/a.json'' #
       [''/home/data/.ipynb_checkpoints/deep/b.json'', ''/home/data/A/c.json''])"
  unfolding get_files_def os_walk_sample
  by (simp add: sample_glob_def endswith_def path_join_def sample_abspath_def)

text \<open>
  C4, as the claim states it, fails: with three event files, the first of which holds
  an event without \<open>userAgent\<close> (\<open>strip\<close> raises \<open>AttributeError\<close>), \<open>process_data\<close>
  ends with that exception and the store holds nothing of the two files after it.
\<close>

theorem process_data_halts_counterexample:
  "fst (process_data sample_fs sample_glob sample_abspath (process_log_file sample_cal log_reader frame_buffer
       accepting_copy) ''data''
          (connect catalog_db)) = Raise AttributeError
   \<and> committed (snd (process_data sample_fs sample_glob sample_abspath
          (process_log_file sample_cal log_reader frame_buffer
       accepting_copy) ''data'' (connect catalog_db))) = catalog_db"
  unfolding process_data_def get_files_sample
  by (simp add: log_reader_def run_defs sample_defs)

lemma log_reader2_first:
  "process_files (process_log_file sample_cal log_reader2 frame_buffer
       accepting_copy) [''/home/data/a.json'']
     (connect catalog_db) =
     (Return (), connect (catalog_db\<lparr>
        users := [user7],
        time_tbl :=
          [\<lparr>t_start_time = IntV 1000, t_hour = IntV 0, t_day = IntV 1, t_week = IntV 1,
             t_month = IntV 1, t_year = IntV 1970, t_weekday = IntV 3\<rparr>,
           \<lparr>t_start_time = IntV 2000, t_hour = IntV 0, t_day = IntV 1, t_week = IntV 1,
             t_month = IntV 1, t_year = IntV 1970, t_weekday = IntV 3\<rparr>],
        songplays :=
          [\<lparr>sp_start_time = IntV 1000, sp_user_id = StrV ''7'', sp_level = StrV ''free'',
             sp_song_id = StrV ''SOUPIRU'', sp_artist_id = StrV ''ARJIE2Y'',
             sp_session_id = IntV 139, sp_location = StrV ''Lund'',
             sp_user_agent = StrV ''Moz''\<rparr>,
           \<lparr>sp_start_time = IntV 2000, sp_user_id = StrV ''7'', sp_level = StrV ''paid'',
             sp_song_id = Null, sp_artist_id = Null, sp_session_id = IntV 139,
             sp_location = StrV ''Lund'', sp_user_agent = StrV ''Moz''\<rparr>]\<rparr>))"
  by (simp add: log_reader2_def run_defs sample_defs)

theorem process_data_stops_at_first_failure_witness:
  "fst (process_data sample_fs sample_glob sample_abspath (process_log_file sample_cal log_reader2 frame_buffer
       accepting_copy) ''data''
          (connect catalog_db)) = Raise AttributeError
   \<and> map sp_start_time (songplays (committed (snd (process_data sample_fs sample_glob sample_abspath
          (process_log_file sample_cal log_reader2 frame_buffer
       accepting_copy) ''data'' (connect catalog_db)))))
       = [IntV 1000, IntV 2000]
   \<and> users (committed (snd (process_data sample_fs sample_glob sample_abspath
          (process_log_file sample_cal log_reader2 frame_buffer
       accepting_copy) ''data'' (connect catalog_db)))) = [user7]"
proof -
  define c1 where "c1 = snd (process_files (process_log_file sample_cal log_reader2 frame_buffer
       accepting_copy)
     [''/home/data/a.json''] (connect catalog_db))"
  define c2 where "c2 = snd (process_log_file sample_cal log_reader2 frame_buffer
       accepting_copy
     ''/home/data/.ipynb_checkpoints/deep/b.json'' c1)"
  have g: "get_files sample_fs sample_glob sample_abspath ''data'' ''*.json'' ''.ipynb_checkpoints'' =
     Return ([''/home/data/a.json''] @ ''/home/data/.ipynb_checkpoints/deep/b.json'' #
       [''/home/data/A/c.json''])"
    using get_files_sample by simp
  have first: "process_files (process_log_file sample_cal log_reader2 frame_buffer
       accepting_copy) [''/home/data/a.json'']
     (connect catalog_db) = (Return (), c1)"
    unfolding c1_def log_reader2_first by simp
  have second: "process_log_file sample_cal log_reader2 frame_buffer
       accepting_copy
     ''/home/data/.ipynb_checkpoints/deep/b.json'' c1 = (Raise AttributeError, c2)"
    unfolding c2_def c1_def log_reader2_first
    by (simp add: log_reader2_def run_defs sample_defs)
  have c1: "committed c1 = catalog_db\<lparr>
        users := [user7],
        time_tbl :=
          [\<lparr>t_start_time = IntV 1000, t_hour = IntV 0, t_day = IntV 1, t_week = IntV 1,
             t_month = IntV 1, t_year = IntV 1970, t_weekday = IntV 3\<rparr>,
           \<lparr>t_start_time = IntV 2000, t_hour = IntV 0, t_day = IntV 1, t_week = IntV 1,
             t_month = IntV 1, t_year = IntV 1970, t_weekday = IntV 3\<rparr>],
        songplays :=
          [\<lparr>sp_start_time = IntV 1000, sp_user_id = StrV ''7'', sp_level = StrV ''free'',
             sp_song_id = StrV ''SOUPIRU'', sp_artist_id = StrV ''ARJIE2Y'',
             sp_session_id = IntV 139, sp_location = StrV ''Lund'',
             sp_user_agent = StrV ''Moz''\<rparr>,
           \<lparr>sp_start_time = IntV 2000, sp_user_id = StrV ''7'', sp_level = StrV ''paid'',
             sp_song_id = Null, sp_artist_id = Null, sp_session_id = IntV 139,
             sp_location = StrV ''Lund'', sp_user_agent = StrV ''Moz''\<rparr>]\<rparr>"
    unfolding c1_def log_reader2_first by (simp add: connect_def)
  from process_data_stops_at_first_failure[OF g first second]
  have "process_data sample_fs sample_glob sample_abspath (process_log_file sample_cal log_reader2 frame_buffer
       accepting_copy) ''data''
          (connect catalog_db) = (Raise AttributeError, c2)"
    and "committed c2 = committed c1"
    by blast+
  then show ?thesis unfolding c1 by simp
qed

section \<open>Running the catalog load again\<close>

lemma execute_song_noop:
  assumes "length args = 6" and "args ! 0 \<noteq> Null"
    and "args ! 0 \<in> set (map s_song_id (songs (pending c)))"
  shows "execute song_table_insert args c = (Return (), c)"
  using assms by (simp add: execute_def)

lemma execute_artist_noop:
  assumes "length args = 5" and "args ! 0 \<noteq> Null"
    and "args ! 0 \<in> set (map a_artist_id (artists (pending c)))"
  shows "execute artist_table_insert args c = (Return (), c)"
  using assms by (simp add: execute_def)

lemma execute_Return_wellformed:
  assumes "execute q args c = (Return u, c')"
  shows "length args = placeholders q \<and> args ! 0 \<noteq> Null"
proof (cases q)
  case time_table_insert
  with assms have "length args = 7" and "Null \<notin> set args"
    by (auto simp: execute_def split: if_splits)
  from \<open>length args = 7\<close> have "args ! 0 \<in> set args" by (intro nth_mem) simp
  with \<open>Null \<notin> set args\<close> have "args ! 0 \<noteq> Null" by metis
  with \<open>length args = 7\<close> time_table_insert show ?thesis by simp
qed (use assms in \<open>auto simp: execute_def split: if_splits\<close>)

lemma execute_noop:
  assumes "q = song_table_insert \<or> q = artist_table_insert"
    and "length args = placeholders q" and "args ! 0 \<noteq> Null"
    and "args ! 0 \<in> keys_of q (pending c)"
  shows "execute q args c = (Return (), c)"
  using assms execute_song_noop[of args c] execute_artist_noop[of args c]
  by (auto simp: keys_of_def)

lemma execute_each_all_noop:
  "(\<And>a. a \<in> set rows \<Longrightarrow> execute q a c = (Return (), c)) \<Longrightarrow>
     execute_each q rows c = (Return (), c)"
  by (induction rows) simp_all

lemma execute_each_wellformed:
  "execute_each q rows c = (Return u, c') \<Longrightarrow> a \<in> set rows \<Longrightarrow>
     length a = placeholders q \<and> a ! 0 \<noteq> Null"
proof (induction rows arbitrary: c)
  case Nil
  then show ?case by simp
next
  case (Cons x rows)
  then obtain u1 c1 where e: "execute q x c = (Return u1, c1)"
    and rest: "execute_each q rows c1 = (Return u, c')"
    by (auto split: prod.splits result.splits)
  show ?case
  proof (cases "a = x")
    case True
    with execute_Return_wellformed[OF e] show ?thesis by simp
  next
    case False
    with Cons.prems(2) have "a \<in> set rows" by simp
    from Cons.IH[OF rest this] show ?thesis .
  qed
qed

lemma execute_each_repeat:
  assumes "q = song_table_insert \<or> q = artist_table_insert"
    and "execute_each q rows c = (Return u, c1)"
  shows "execute_each q rows c1 = (Return (), c1)"
proof (rule execute_each_all_noop)
  fix a assume a: "a \<in> set rows"
  from execute_each_keys[OF assms(2)] a have "a ! 0 \<in> keys_of q (pending c1)" by auto
  with execute_each_wellformed[OF assms(2) a] assms(1)
  show "execute q a c1 = (Return (), c1)"
    by (intro execute_noop) simp_all
qed

lemma process_song_file_raises:
  "\<exists>e. fst (process_song_file read_json filepath c) = Raise e"
proof (cases "read_json filepath")
  case (Inl e)
  then show ?thesis by (simp add: process_song_file_def)
next
  case (Inr df)
  show ?thesis
  proof (cases "getitems df [''song_id'', ''title'', ''artist_id'', ''year'', ''duration'']")
    case (Raise e)
    with Inr show ?thesis by (simp add: process_song_file_def del: getitems.simps)
  next
    case (Return song_data)
    from getitems_length[OF this] have "length song_data = 5" by simp
    then have "execute song_table_insert song_data c = (Raise IndexError, c)"
      by (simp add: execute_def)
    with Inr Return show ?thesis by (simp add: process_song_file_def del: getitems.simps)
  qed
qed

lemma process_files_song_committed:
  "committed (snd (process_files (process_song_file read_json) files c)) = committed c"
proof (cases files)
  case Nil
  then show ?thesis by simp
next
  case (Cons f rest)
  obtain r c' where run: "process_song_file read_json f c = (r, c')"
    by (cases "process_song_file read_json f c")
  with process_song_file_raises[of read_json f c] obtain e where "r = Raise e" by auto
  with run Cons process_song_file_frame[OF run] show ?thesis by simp
qed

text \<open>
  C9. \<open>song_table_insert\<close> and \<open>artist_table_insert\<close> with a key that the table
  already holds succeed and change nothing; a batch of either statement that has
  succeeded once changes nothing when it is executed again; and running
  \<open>process_data\<close> with \<open>process_song_file\<close> on the store left by a first run over the
  same files leaves \<open>songs\<close> and \<open>artists\<close> as the first run left them.
\<close>

theorem catalog_load_idempotent:
  "(length args = 6 \<and> args ! 0 \<noteq> Null \<and> args ! 0 \<in> set (map s_song_id (songs (pending c)))
      \<longrightarrow> execute song_table_insert args c = (Return (), c))
   \<and> (length args = 5 \<and> args ! 0 \<noteq> Null \<and> args ! 0 \<in> set (map a_artist_id (artists (pending c)))
      \<longrightarrow> execute artist_table_insert args c = (Return (), c))
   \<and> ((q = song_table_insert \<or> q = artist_table_insert)
        \<and> execute_each q rows c = (Return u, c')
      \<longrightarrow> execute_each q rows c' = (Return (), c'))
   \<and> songs (committed (snd (process_data fs glob abspath (process_song_file read_json) filepath
        (connect (committed (snd (process_data fs glob abspath (process_song_file read_json) filepath
           (connect d))))))))
      = songs (committed (snd (process_data fs glob abspath (process_song_file read_json) filepath
           (connect d))))
   \<and> artists (committed (snd (process_data fs glob abspath (process_song_file read_json) filepath
        (connect (committed (snd (process_data fs glob abspath (process_song_file read_json) filepath
           (connect d))))))))
      = artists (committed (snd (process_data fs glob abspath (process_song_file read_json) filepath
           (connect d))))"
proof -
  have run: "committed (snd (process_data fs glob abspath (process_song_file read_json) filepath
       (connect x))) = x" for x
    by (simp add: process_data_def get_files_def process_files_song_committed)
      (simp add: connect_def)
  show ?thesis
    unfolding run
    using execute_song_noop[of args c] execute_artist_noop[of args c]
      execute_each_repeat[of q rows c u c']
    by blast
qed

theorem catalog_load_idempotent_witness:
  "execute song_table_insert
      [StrV ''SOUPIRU'', StrV ''Intro'', StrV ''ARJIE2Y'', IntV 2003, StrV ''269.58322'',
       FloatV ''269.58322''] (connect catalog_db)
     = (Return (), connect catalog_db)
   \<and> execute_each song_table_insert
      [[StrV ''SOUPIRU'', StrV ''Intro'', StrV ''ARJIE2Y'', IntV 2003, StrV ''269.58322'',
        FloatV ''269.58322'']]
      \<lparr>committed = empty_db, pending = empty_db\<lparr>songs := [song1]\<rparr>\<rparr>
     = (Return (), \<lparr>committed = empty_db, pending = empty_db\<lparr>songs := [song1]\<rparr>\<rparr>)
   \<and> songs (committed (snd (process_data sample_fs sample_glob sample_abspath
        (process_song_file catalog_reader) ''data''
        (connect (committed (snd (process_data sample_fs sample_glob sample_abspath
           (process_song_file catalog_reader) ''data'' (connect catalog_db))))))))
      = songs (committed (snd (process_data sample_fs sample_glob sample_abspath
           (process_song_file catalog_reader) ''data'' (connect catalog_db))))"
proof -
  let ?args = "[StrV ''SOUPIRU'', StrV ''Intro'', StrV ''ARJIE2Y'', IntV 2003, StrV ''269.58322'',
       FloatV ''269.58322'']"
  have present: "length ?args = 6 \<and> ?args ! 0 \<noteq> Null
      \<and> ?args ! 0 \<in> set (map s_song_id (songs (pending (connect catalog_db))))"
    by (simp add: connect_def catalog_db_def song1_def)
  have first: "(song_table_insert = song_table_insert \<or> song_table_insert = artist_table_insert)
      \<and> execute_each song_table_insert [?args] (connect empty_db)
          = (Return (), \<lparr>committed = empty_db, pending = empty_db\<lparr>songs := [song1]\<rparr>\<rparr>)"
    by (simp add: execute_def connect_def empty_db_def song1_def)
  from catalog_load_idempotent
    [where args = ?args and c = "connect catalog_db" and q = song_table_insert and rows = "[]"
       and fs = sample_fs and glob = sample_glob and abspath = sample_abspath
       and read_json = catalog_reader
       and filepath = "''data''" and d = catalog_db] present
  have 1: "execute song_table_insert ?args (connect catalog_db) = (Return (), connect catalog_db)"
    and 3: "songs (committed (snd (process_data sample_fs sample_glob sample_abspath
        (process_song_file catalog_reader) ''data''
        (connect (committed (snd (process_data sample_fs sample_glob sample_abspath
           (process_song_file catalog_reader) ''data'' (connect catalog_db))))))))
      = songs (committed (snd (process_data sample_fs sample_glob sample_abspath
           (process_song_file catalog_reader) ''data'' (connect catalog_db))))"
    by blast+
  from catalog_load_idempotent
    [where q = song_table_insert and rows = "[?args]" and c = "connect empty_db" and u = "()"
       and c' = "\<lparr>committed = empty_db, pending = empty_db\<lparr>songs := [song1]\<rparr>\<rparr>"] first
  have 2: "execute_each song_table_insert [?args]
      \<lparr>committed = empty_db, pending = empty_db\<lparr>songs := [song1]\<rparr>\<rparr>
     = (Return (), \<lparr>committed = empty_db, pending = empty_db\<lparr>songs := [song1]\<rparr>\<rparr>)"
    by blast
  from 1 2 3 show ?thesis by simp
qed

end
